theory Spec2Isabelle
  imports Complex_Main "HOL-Library.Multiset"
begin

section \<open>Data model (types.ts)\<close>

text \<open>
  The records of \<open>types.ts\<close> take the type of their \<open>number\<close> fields as a parameter.
  The totals of the \<open>Dashboard\<close> component, whose value depends on how each addition
  rounds, are computed on IEEE doubles (the type \<open>double\<close> below). Everywhere else a
  \<open>number\<close> is read as an exact \<^typ>\<open>real\<close>. Time values of \<open>Date\<close> objects are
  whole milliseconds since the epoch, an \<^typ>\<open>int\<close>.
\<close>

datatype MealType = Breakfast | Lunch | Dinner | Snack

datatype GoalType = Recomposition | Cut | Bulk

text \<open>
  \<open>FoodEntry extends Nutrients\<close>; \<open>UserGoals\<close> repeats the fields of \<open>Nutrients\<close>,
  and the object literal \<open>remaining\<close> of \<open>generateMealCompletion\<close> has the four macro
  fields only. The records are chained so that one field name reads all of them, as the
  structurally typed source does.
\<close>

record 'n Macros_of =
  calories :: 'n
  protein :: 'n
  carbs :: 'n
  fat :: 'n

record 'n Nutrients_of = "'n Macros_of" +
  fiber :: 'n
  salt :: 'n
  potassium :: 'n

record 'n FoodEntry_of = "'n Nutrients_of" +
  entry_id :: string
  name :: string
  mealType :: MealType
  timestamp :: int
  tags :: "string list"
  inflammationFlags :: "string list"
  insight :: "string option"
  images :: "string list option"

record 'n UserGoals_of = "'n Nutrients_of" +
  goalType :: GoalType
  isTrainingDay :: bool
  steps :: 'n
  water :: 'n

type_synonym Macros = "real Macros_of"

type_synonym Nutrients = "real Nutrients_of"

type_synonym FoodEntry = "real FoodEntry_of"

type_synonym UserGoals = "real UserGoals_of"

record DayLog =
  date :: int
  dayName :: string
  entries :: "FoodEntry list"

section \<open>Goal adjustment (App.tsx, \<open>adjustedGoals\<close>)\<close>

text \<open>
  The source copies the goals object with a spread and then assigns to fields of the
  copy. Objects live in a store (a list, a reference is an index); the spread allocates
  a new object at the end of the store, each \<open>+=\<close> updates one object in place.
\<close>

type_synonym ref = nat

type_synonym store = "UserGoals list"

definition spreadCopy :: "store \<Rightarrow> ref \<Rightarrow> ref \<times> store" where
  "spreadCopy s r = (length s, s @ [s ! r])"

definition modify :: "store \<Rightarrow> ref \<Rightarrow> (UserGoals \<Rightarrow> UserGoals) \<Rightarrow> store" where
  "modify s r f = s[r := f (s ! r)]"

definition adjustedGoals_store :: "store \<Rightarrow> ref \<Rightarrow> ref \<times> store" where
  "adjustedGoals_store s0 goals =
     (let (g, s1) = spreadCopy s0 goals;
          s2 = (if isTrainingDay (s1 ! g)
                then (let t = modify s1 g (\<lambda>ob. ob\<lparr>calories := calories ob + 300\<rparr>)
                      in modify t g (\<lambda>ob. ob\<lparr>carbs := carbs ob + 50\<rparr>))
                else s1);
          s3 = (if steps (s2 ! g) > 10000
                then modify s2 g (\<lambda>ob. ob\<lparr>carbs := carbs ob + 30\<rparr>)
                else s2)
      in (g, s3))"

text \<open>The value the memo returns for a goals object, read off a store holding only it.\<close>

definition adjustedGoals :: "UserGoals \<Rightarrow> UserGoals" where
  "adjustedGoals goals = (let (g, s) = adjustedGoals_store [goals] 0 in s ! g)"

section \<open>Remaining macros (geminiService.ts, \<open>generateMealCompletion\<close>)\<close>

text \<open>\<open>xs.reduce((acc, e) => acc + f(e), 0)\<close> is a left fold from zero.\<close>

definition reduce_sum :: "('a \<Rightarrow> real) \<Rightarrow> 'a list \<Rightarrow> real" where
  "reduce_sum f xs = foldl (\<lambda>acc e. acc + f e) 0 xs"

text \<open>The first part of \<open>generateMealCompletion\<close>: the totals and the clamped rest.\<close>

definition remaining :: "FoodEntry list \<Rightarrow> UserGoals \<Rightarrow> Macros" where
  "remaining dailyLogs goals =
     (let totalCals = reduce_sum calories dailyLogs;
          totalProtein = reduce_sum protein dailyLogs;
          totalCarbs = reduce_sum carbs dailyLogs;
          totalFat = reduce_sum fat dailyLogs
      in \<lparr>calories = max 0 (calories goals - totalCals),
          protein = max 0 (protein goals - totalProtein),
          carbs = max 0 (carbs goals - totalCarbs),
          fat = max 0 (fat goals - totalFat)\<rparr>)"

section \<open>Dashboard totals on doubles (Dashboard.tsx)\<close>

text \<open>
  An IEEE double is a NaN, an infinity with its sign (\<open>True\<close> for the negative one), or
  a finite value \<open>m * 2 ^ e\<close> kept as the pair of \<open>m\<close> and \<open>e\<close>. Every result of an
  addition is stored with an odd \<open>m\<close> (zero as \<open>Fin 0 0\<close>), so that two results are the
  same double exactly when they are the same term. The two zeros are one value here:
  \<open>===\<close> does not tell them apart and a sum that starts from \<open>0\<close> is never \<open>-0\<close>.
  The finite doubles are the pairs with, after stripping, \<open>\<bar>m\<bar> < 2 ^ 53\<close>,
  \<open>- 1074 \<le> e\<close> and a value below \<open>2 ^ 1024\<close>.
\<close>

datatype double = Fin int int | Infinity bool | NaN

text \<open>The number of binary digits of a natural number.\<close>

fun bitlen :: "nat \<Rightarrow> nat" where
  "bitlen n = (if n = 0 then 0 else Suc (bitlen (n div 2)))"

declare bitlen.simps [simp del]

text \<open>Dividing out the factors of two of the mantissa.\<close>

function strip_zeros :: "int \<Rightarrow> int \<Rightarrow> int \<times> int" where
  "strip_zeros m e =
     (if m = 0 then (0, 0)
      else if even m then strip_zeros (m div 2) (e + 1)
      else (m, e))"
  by pat_completeness auto
termination
  by (relation "measure (\<lambda>(m, e). nat \<bar>m\<bar>)") auto

declare strip_zeros.simps [simp del]

text \<open>
  Rounding the exact value \<open>m * 2 ^ e\<close> to 53 significant bits, to the nearest and on
  a tie to the even mantissa. The remainder of the floor division is never negative, so
  the comparison with one half is the same for both signs.
\<close>

definition round53 :: "int \<Rightarrow> int \<Rightarrow> int \<times> int" where
  "round53 m e =
     (let n = bitlen (nat \<bar>m\<bar>)
      in if n \<le> 53 then (m, e)
         else (let k = n - 53;
                   q = m div 2 ^ k;
                   r = m mod 2 ^ k;
                   half = 2 ^ (k - 1)
               in (if half < r \<or> (r = half \<and> odd q) then q + 1 else q, e + int k)))"

text \<open>A rounded value of \<open>2 ^ 1024\<close> or more in magnitude overflows to the infinity.\<close>

definition pack :: "int \<times> int \<Rightarrow> double" where
  "pack p =
     (let (m, e) = strip_zeros (fst p) (snd p)
      in if 1024 < int (bitlen (nat \<bar>m\<bar>)) + e then Infinity (m < 0) else Fin m e)"

text \<open>
  \<open>x + y\<close> on doubles. The exact sum of two finite doubles is a whole multiple of
  two to the smaller exponent; below the normal range every such sum is a double, so no
  separate case for subnormal results is needed.
\<close>

fun fadd :: "double \<Rightarrow> double \<Rightarrow> double" where
  "fadd NaN y = NaN"
| "fadd (Infinity s) NaN = NaN"
| "fadd (Fin m e) NaN = NaN"
| "fadd (Infinity s) (Infinity t) = (if s = t then Infinity s else NaN)"
| "fadd (Infinity s) (Fin m e) = Infinity s"
| "fadd (Fin m e) (Infinity t) = Infinity t"
| "fadd (Fin m1 e1) (Fin m2 e2) =
     (let e = min e1 e2;
          m = m1 * 2 ^ nat (e1 - e) + m2 * 2 ^ nat (e2 - e)
      in pack (round53 m e))"

fun isFinite :: "double \<Rightarrow> bool" where
  "isFinite (Fin m e) = True"
| "isFinite (Infinity s) = False"
| "isFinite NaN = False"

text \<open>The real number a finite double stands for.\<close>

fun valof :: "double \<Rightarrow> real" where
  "valof (Fin m e) = real_of_int m * 2 powi e"
| "valof (Infinity s) = 0"
| "valof NaN = 0"

text \<open>\<open>xs.reduce((acc, e) => acc + f(e), 0)\<close> on doubles.\<close>

definition reduce_fadd :: "('a \<Rightarrow> double) \<Rightarrow> 'a list \<Rightarrow> double" where
  "reduce_fadd f xs = foldl (\<lambda>acc e. fadd acc (f e)) (Fin 0 0) xs"

text \<open>\<open>x || 0\<close> on a number: a falsy number (a zero or NaN) gives the right operand.\<close>

definition or_zero :: "double \<Rightarrow> double" where
  "or_zero x = (case x of Fin m e \<Rightarrow> if m = 0 then Fin 0 0 else x | Infinity s \<Rightarrow> x | NaN \<Rightarrow> Fin 0 0)"

text \<open>The seven totals of the \<open>Dashboard\<close> component, collected in one profile.\<close>

definition aggregate :: "double FoodEntry_of list \<Rightarrow> double Nutrients_of" where
  "aggregate es =
     \<lparr>calories = reduce_fadd calories es,
      protein = reduce_fadd protein es,
      carbs = reduce_fadd carbs es,
      fat = reduce_fadd fat es,
      fiber = reduce_fadd (\<lambda>e. or_zero (fiber e)) es,
      salt = reduce_fadd (\<lambda>e. or_zero (salt e)) es,
      potassium = reduce_fadd (\<lambda>e. or_zero (potassium e)) es\<rparr>"

text \<open>\<open>groupEntries\<close> is the filter of the \<open>Dashboard\<close> component by meal type.\<close>

definition groupEntries :: "'n FoodEntry_of list \<Rightarrow> MealType \<Rightarrow> 'n FoodEntry_of list" where
  "groupEntries es ty = filter (\<lambda>e. mealType e = ty) es"

text \<open>
  The specification's equations speak of the entries of the other slots, of the
  fieldwise sum of two profiles and of the zero profile; the source has no function for
  them, they are written here after the specification's words, the sum with the
  addition of doubles.
\<close>

definition otherEntries :: "'n FoodEntry_of list \<Rightarrow> MealType \<Rightarrow> 'n FoodEntry_of list" where
  "otherEntries es ty = filter (\<lambda>e. mealType e \<noteq> ty) es"

definition add_profiles :: "double Nutrients_of \<Rightarrow> double Nutrients_of \<Rightarrow> double Nutrients_of" where
  "add_profiles a b =
     \<lparr>calories = fadd (calories a) (calories b),
      protein = fadd (protein a) (protein b),
      carbs = fadd (carbs a) (carbs b),
      fat = fadd (fat a) (fat b),
      fiber = fadd (fiber a) (fiber b),
      salt = fadd (salt a) (salt b),
      potassium = fadd (potassium a) (potassium b)\<rparr>"

definition zero_profile :: "double Nutrients_of" where
  "zero_profile =
     \<lparr>calories = Fin 0 0, protein = Fin 0 0, carbs = Fin 0 0, fat = Fin 0 0,
      fiber = Fin 0 0, salt = Fin 0 0, potassium = Fin 0 0\<rparr>"

text \<open>
  The seven fields of a profile of totals, each with the reading of an entry that the
  \<open>Dashboard\<close> sums for it.
\<close>

definition nutrient_fields ::
  "((double Nutrients_of \<Rightarrow> double) \<times> (double FoodEntry_of \<Rightarrow> double)) list" where
  "nutrient_fields =
     [(calories, calories), (protein, protein), (carbs, carbs), (fat, fat),
      (fiber, \<lambda>e. or_zero (fiber e)), (salt, \<lambda>e. or_zero (salt e)),
      (potassium, \<lambda>e. or_zero (potassium e))]"

text \<open>
  The measures of rounding: the exact sum of a field over a list, the sum of its
  absolute values, the unit roundoff of doubles, and the bound on the error of a left
  fold of \<open>n\<close> additions over values of absolute sum \<open>A\<close>.
\<close>

definition exact_sum :: "('a \<Rightarrow> double) \<Rightarrow> 'a list \<Rightarrow> real" where
  "exact_sum f xs = sum_list (map (\<lambda>x. valof (f x)) xs)"

definition abs_sum :: "('a \<Rightarrow> double) \<Rightarrow> 'a list \<Rightarrow> real" where
  "abs_sum f xs = sum_list (map (\<lambda>x. \<bar>valof (f x)\<bar>) xs)"

definition unit_roundoff :: real where
  "unit_roundoff = 1 / 2 ^ 53"

definition rounding_bound :: "nat \<Rightarrow> real \<Rightarrow> real" where
  "rounding_bound n A = ((1 + unit_roundoff) ^ n - 1) * A"

section \<open>Next meal (geminiService.ts, \<open>generateMealCompletion\<close>)\<close>

definition hasBreakfast :: "FoodEntry list \<Rightarrow> bool" where
  "hasBreakfast dailyLogs = list_ex (\<lambda>e. mealType e = Breakfast) dailyLogs"

definition hasLunch :: "FoodEntry list \<Rightarrow> bool" where
  "hasLunch dailyLogs = list_ex (\<lambda>e. mealType e = Lunch) dailyLogs"

definition hasDinner :: "FoodEntry list \<Rightarrow> bool" where
  "hasDinner dailyLogs = list_ex (\<lambda>e. mealType e = Dinner) dailyLogs"

text \<open>\<open>time\<close> is the hour \<open>new Date().getHours()\<close> gave.\<close>

definition nextMeal :: "FoodEntry list \<Rightarrow> int \<Rightarrow> MealType" where
  "nextMeal dailyLogs time =
     (if \<not> hasBreakfast dailyLogs \<and> time < 11 then Breakfast
      else if \<not> hasLunch dailyLogs \<and> time < 15 then Lunch
      else if \<not> hasDinner dailyLogs then Dinner
      else Snack)"

text \<open>The decision table as the specification words it, for comparison.\<close>

definition no_entry_in :: "MealType \<Rightarrow> FoodEntry list \<Rightarrow> bool" where
  "no_entry_in slot es = (slot \<notin> mealType ` set es)"

definition selectNextMeal_spec :: "FoodEntry list \<Rightarrow> int \<Rightarrow> MealType" where
  "selectNextMeal_spec es currentHour =
     (if no_entry_in Breakfast es \<and> currentHour < 11 then Breakfast
      else if no_entry_in Lunch es \<and> currentHour < 15 then Lunch
      else if no_entry_in Dinner es then Dinner
      else Snack)"

section \<open>Saving an entry (App.tsx, \<open>handleSaveEntry\<close>)\<close>

text \<open>
  The updater handed to \<open>setEntries\<close>: from the previous list to the next. The
  handler's other three state writes (editing entry, logger flag, view) do not touch
  the entry list.
\<close>

definition handleSaveEntry :: "FoodEntry list \<Rightarrow> FoodEntry \<Rightarrow> FoodEntry list" where
  "handleSaveEntry prev entry =
     (let exists = list_ex (\<lambda>e. entry_id e = entry_id entry) prev
      in if exists then map (\<lambda>e. if entry_id e = entry_id entry then entry else e) prev
         else prev @ [entry])"

section \<open>Weekly history (App.tsx, \<open>weeklyHistory\<close>)\<close>

text \<open>
  A \<open>Date\<close> is its time value, the milliseconds since the epoch in UTC. Local fields
  are read in a zone at a fixed offset \<open>tz\<close> (milliseconds east of UTC; daylight-saving
  changes inside the week are not modelled). \<open>toISOString().split('T')[0]\<close> prints the
  UTC calendar day of the time value; the day is kept as its number since the epoch,
  of which the printed \<open>YYYY-MM-DD\<close> text is a one-to-one rendering, so that comparing
  two such texts is comparing the two day numbers.
\<close>

definition msPerDay :: int where
  "msPerDay = 86400000"

definition localDay :: "int \<Rightarrow> int \<Rightarrow> int" where
  "localDay tz t = (t + tz) div msPerDay"

text \<open>\<open>getDay()\<close>: 0 is Sunday; day 0 of the epoch was a Thursday.\<close>

definition getDay :: "int \<Rightarrow> int \<Rightarrow> int" where
  "getDay tz t = (localDay tz t + 4) mod 7"

text \<open>\<open>x.setDate(y.getDate() + k)\<close> on a copy \<open>x\<close> of \<open>y\<close>.\<close>

definition addDays :: "int \<Rightarrow> int \<Rightarrow> int" where
  "addDays t k = t + k * msPerDay"

text \<open>\<open>setHours(0,0,0,0)\<close>: the local midnight of the local day.\<close>

definition setHours0 :: "int \<Rightarrow> int \<Rightarrow> int" where
  "setHours0 tz t = localDay tz t * msPerDay - tz"

definition isoDate :: "int \<Rightarrow> int" where
  "isoDate t = t div msPerDay"

definition distanceToMonday :: "int \<Rightarrow> int \<Rightarrow> int" where
  "distanceToMonday tz today =
     (let currentDay = getDay tz today in if currentDay = 0 then 6 else currentDay - 1)"

definition monday :: "int \<Rightarrow> int \<Rightarrow> int" where
  "monday tz today = setHours0 tz (addDays today (- distanceToMonday tz today))"

definition dayNames :: "string list" where
  "dayNames = [''Mon'', ''Tue'', ''Wed'', ''Thu'', ''Fri'', ''Sat'', ''Sun'']"

text \<open>The text of a loop index below ten inside the template \<open>mock-${i}\<close>.\<close>

definition digitStr :: "nat \<Rightarrow> string" where
  "digitStr i = [char_of (48 + i)]"

text \<open>
  The mock entry of a past day. \<open>random\<close> is the value \<open>Math.random()\<close> returned for
  it (at least 0, below 1); \<open>Math.round x\<close> is \<open>\<lfloor>x + 1/2\<rfloor>\<close>, which is \<^const>\<open>round\<close>.
\<close>

definition mockEntry :: "UserGoals \<Rightarrow> real \<Rightarrow> nat \<Rightarrow> int \<Rightarrow> FoodEntry" where
  "mockEntry goals random i d =
     (let variance = random * 0.4 - 0.2;
          dailyCals = round (calories goals * (1 + variance));
          p = round ((real_of_int dailyCals * 0.3) / 4);
          c = round ((real_of_int dailyCals * 0.4) / 4);
          f = round ((real_of_int dailyCals * 0.3) / 9)
      in \<lparr>calories = real_of_int dailyCals,
          protein = real_of_int p,
          carbs = real_of_int c,
          fat = real_of_int f,
          fiber = 20, salt = 2000, potassium = 3000,
          entry_id = ''mock-'' @ digitStr i,
          name = ''Mock Entry'',
          mealType = Snack,
          timestamp = d,
          tags = [],
          inflammationFlags = [],
          insight = None,
          images = None\<rparr>)"

text \<open>
  One turn of the loop: the day log pushed for index \<open>i\<close>. \<open>rnd i\<close> is the random
  number drawn in that turn when it reaches the last branch.
\<close>

definition dayLog ::
  "int \<Rightarrow> int \<Rightarrow> (nat \<Rightarrow> real) \<Rightarrow> FoodEntry list \<Rightarrow> UserGoals \<Rightarrow> nat \<Rightarrow> DayLog" where
  "dayLog tz today rnd liveEntries goals i =
     (let d = addDays (monday tz today) (int i);
          dateStr = isoDate d;
          isFuture = d > today;
          isToday = (dateStr = isoDate today)
      in if isFuture then \<lparr>date = dateStr, dayName = dayNames ! i, entries = []\<rparr>
         else if isToday then \<lparr>date = dateStr, dayName = dayNames ! i, entries = liveEntries\<rparr>
         else \<lparr>date = dateStr, dayName = dayNames ! i,
               entries = [mockEntry goals (rnd i) i d]\<rparr>)"

function weekLoop ::
  "int \<Rightarrow> int \<Rightarrow> (nat \<Rightarrow> real) \<Rightarrow> FoodEntry list \<Rightarrow> UserGoals \<Rightarrow> nat \<Rightarrow> DayLog list
   \<Rightarrow> DayLog list" where
  "weekLoop tz today rnd liveEntries goals i history =
     (if i < 7
      then weekLoop tz today rnd liveEntries goals (Suc i)
             (history @ [dayLog tz today rnd liveEntries goals i])
      else history)"
  by pat_completeness auto
termination
  by (relation "measure (\<lambda>(tz, today, rnd, liveEntries, goals, i, history). 7 - i)") auto

definition weeklyHistory ::
  "int \<Rightarrow> int \<Rightarrow> (nat \<Rightarrow> real) \<Rightarrow> FoodEntry list \<Rightarrow> UserGoals \<Rightarrow> DayLog list" where
  "weeklyHistory tz today rnd liveEntries goals =
     weekLoop tz today rnd liveEntries goals 0 []"

text \<open>The position of today's local day in the week that starts on Monday.\<close>

definition todayIndex :: "int \<Rightarrow> int \<Rightarrow> nat" where
  "todayIndex tz today = nat (distanceToMonday tz today)"

section \<open>Sample data\<close>

text \<open>The initial goals of \<open>App.tsx\<close>, and an entry with chosen macros.\<close>

definition INITIAL_GOALS :: UserGoals where
  "INITIAL_GOALS =
     \<lparr>calories = 2200, protein = 180, carbs = 200, fat = 70,
      fiber = 30, salt = 2300, potassium = 3500,
      goalType = Recomposition, isTrainingDay = False, steps = 8000, water = 3000\<rparr>"

definition sampleEntry :: "string \<Rightarrow> MealType \<Rightarrow> real \<Rightarrow> real \<Rightarrow> real \<Rightarrow> real \<Rightarrow> FoodEntry" where
  "sampleEntry i m cal p c f =
     \<lparr>calories = cal, protein = p, carbs = c, fat = f,
      fiber = 5, salt = 400, potassium = 300,
      entry_id = i, name = ''Meal'', mealType = m, timestamp = 0,
      tags = [], inflammationFlags = [], insight = None, images = None\<rparr>"

text \<open>
  The doubles nearest to 0.1, 0.2 and 0.3 (\<open>0x1.999999999999ap-4\<close>,
  \<open>0x1.999999999999ap-3\<close>, \<open>0x1.3333333333333p-2\<close>), and an entry with a chosen
  fat value, its other numbers zero.
\<close>

definition dbl_0_1 :: double where
  "dbl_0_1 = Fin 3602879701896397 (- 55)"

definition dbl_0_2 :: double where
  "dbl_0_2 = Fin 3602879701896397 (- 54)"

definition dbl_0_3 :: double where
  "dbl_0_3 = Fin 5404319552844595 (- 54)"

definition fatEntry :: "string \<Rightarrow> MealType \<Rightarrow> double \<Rightarrow> double FoodEntry_of" where
  "fatEntry i m f =
     \<lparr>calories = Fin 0 0, protein = Fin 0 0, carbs = Fin 0 0, fat = f,
      fiber = Fin 0 0, salt = Fin 0 0, potassium = Fin 0 0,
      entry_id = i, name = ''Meal'', mealType = m, timestamp = 0,
      tags = [], inflammationFlags = [], insight = None, images = None\<rparr>"

text \<open>
  What the specification says of one field of the remaining macros: the clamped
  difference of goal and total, with its three consequences.
\<close>

definition clamped_rest :: "real \<Rightarrow> real \<Rightarrow> real \<Rightarrow> bool" where
  "clamped_rest r goal tot =
     (r = max 0 (goal - tot) \<and> 0 \<le> r \<and> (tot \<ge> goal \<longrightarrow> r = 0)
      \<and> (tot < goal \<longrightarrow> r = goal - tot))"

section \<open>The goal adjuster\<close>

text \<open>
  On a store that holds the goals object, the memo appends one new object and returns
  its reference; the new object is the closed form below.
\<close>

lemma adjustedGoals_store_eq:
  "r < length s \<Longrightarrow> adjustedGoals_store s r =
     (length s,
      s @ [(s ! r)\<lparr>calories := calories (s ! r) + (if isTrainingDay (s ! r) then 300 else 0),
                  carbs := carbs (s ! r) + (if isTrainingDay (s ! r) then 50 else 0)
                             + (if steps (s ! r) > 10000 then 30 else 0)\<rparr>])"
  by (simp add: adjustedGoals_store_def spreadCopy_def modify_def Let_def nth_append)

lemma adjustedGoals_eq:
  "adjustedGoals base =
     base\<lparr>calories := calories base + (if isTrainingDay base then 300 else 0),
          carbs := carbs base + (if isTrainingDay base then 50 else 0)
                     + (if steps base > 10000 then 30 else 0)\<rparr>"
  by (simp add: adjustedGoals_def adjustedGoals_store_eq)

text \<open>
  C1. For every base goal profile the adjusted goals are the base with the additive
  modifiers applied and nothing else changed: a training day adds 300 to calories and
  50 to carbs, more than 10000 steps add a further 30 to carbs (on top of the training
  bonus when both hold), and exactly 10000 steps add nothing.
\<close>

theorem adjustedGoals_modifiers:
  "adjustedGoals base =
     base\<lparr>calories := calories base + (if isTrainingDay base then 300 else 0),
          carbs := carbs base + (if isTrainingDay base then 50 else 0)
                     + (if steps base > 10000 then 30 else 0)\<rparr>
   \<and> (steps base = 10000 \<longrightarrow>
        carbs (adjustedGoals base) = carbs base + (if isTrainingDay base then 50 else 0))"
  by (simp add: adjustedGoals_eq)

theorem adjustedGoals_modifiers_witness:
  "steps (INITIAL_GOALS\<lparr>isTrainingDay := True, steps := 10000\<rparr>) = 10000
   \<and> calories (adjustedGoals (INITIAL_GOALS\<lparr>isTrainingDay := True, steps := 10000\<rparr>)) = 2500
   \<and> carbs (adjustedGoals (INITIAL_GOALS\<lparr>isTrainingDay := True, steps := 10000\<rparr>)) = 250
   \<and> carbs (adjustedGoals (INITIAL_GOALS\<lparr>isTrainingDay := True, steps := 10001\<rparr>)) = 280"
  using adjustedGoals_modifiers [of "INITIAL_GOALS\<lparr>isTrainingDay := True, steps := 10000\<rparr>"]
        adjustedGoals_modifiers [of "INITIAL_GOALS\<lparr>isTrainingDay := True, steps := 10001\<rparr>"]
  by (simp add: INITIAL_GOALS_def)

text \<open>
  C9. The adjuster does not change its input. Run on any store that holds the base
  object, it leaves every object of that store as it was (the base among them) and
  puts its result in a newly allocated object; a second run on the base gives a result
  equal to the first; every field other than calories and carbs is the base's; and with
  no training day and at most 10000 steps the result equals the base.
\<close>

theorem adjustedGoals_frame:
  assumes "base < length s"
  shows "fst (adjustedGoals_store s base) = length s
    \<and> length (snd (adjustedGoals_store s base)) = Suc (length s)
    \<and> (\<forall>q < length s. snd (adjustedGoals_store s base) ! q = s ! q)
    \<and> snd (adjustedGoals_store s base) ! base = s ! base
    \<and> (let (g, s') = adjustedGoals_store s base; (g2, s2) = adjustedGoals_store s' base
        in s2 ! g2 = s' ! g \<and> s' ! g = adjustedGoals (s ! base)
           \<and> protein (s' ! g) = protein (s ! base) \<and> fat (s' ! g) = fat (s ! base)
           \<and> fiber (s' ! g) = fiber (s ! base) \<and> salt (s' ! g) = salt (s ! base)
           \<and> potassium (s' ! g) = potassium (s ! base) \<and> goalType (s' ! g) = goalType (s ! base)
           \<and> isTrainingDay (s' ! g) = isTrainingDay (s ! base) \<and> steps (s' ! g) = steps (s ! base)
           \<and> water (s' ! g) = water (s ! base)
           \<and> (\<not> isTrainingDay (s ! base) \<and> steps (s ! base) \<le> 10000 \<longrightarrow> s' ! g = s ! base))"
proof -
  let ?v = "adjustedGoals (s ! base)"
  have one: "adjustedGoals_store s base = (length s, s @ [?v])"
    using assms by (simp add: adjustedGoals_store_eq adjustedGoals_eq)
  have "base < length (s @ [?v])" "(s @ [?v]) ! base = s ! base"
    using assms by (simp_all add: nth_append)
  then have two: "adjustedGoals_store (s @ [?v]) base = (Suc (length s), (s @ [?v]) @ [?v])"
    by (simp add: adjustedGoals_store_eq adjustedGoals_eq)
  have same: "\<not> isTrainingDay (s ! base) \<and> steps (s ! base) \<le> 10000 \<longrightarrow> ?v = s ! base"
    by (simp add: adjustedGoals_eq)
  have frame: "protein ?v = protein (s ! base)" "fat ?v = fat (s ! base)"
      "fiber ?v = fiber (s ! base)" "salt ?v = salt (s ! base)"
      "potassium ?v = potassium (s ! base)" "goalType ?v = goalType (s ! base)"
      "isTrainingDay ?v = isTrainingDay (s ! base)" "steps ?v = steps (s ! base)"
      "water ?v = water (s ! base)"
    by (simp_all add: adjustedGoals_eq)
  show ?thesis
    using assms same frame by (simp add: one two nth_append)
qed

theorem adjustedGoals_frame_witness:
  "(0::nat) < length [INITIAL_GOALS\<lparr>isTrainingDay := True, steps := 12000\<rparr>]
   \<and> snd (adjustedGoals_store [INITIAL_GOALS\<lparr>isTrainingDay := True, steps := 12000\<rparr>] 0) ! 0
       = INITIAL_GOALS\<lparr>isTrainingDay := True, steps := 12000\<rparr>
   \<and> fst (adjustedGoals_store [INITIAL_GOALS\<lparr>isTrainingDay := True, steps := 12000\<rparr>] 0) = 1
   \<and> snd (adjustedGoals_store [INITIAL_GOALS] 0) ! fst (adjustedGoals_store [INITIAL_GOALS] 0)
       = INITIAL_GOALS"
  using adjustedGoals_frame [of 0 "[INITIAL_GOALS\<lparr>isTrainingDay := True, steps := 12000\<rparr>]"]
    adjustedGoals_frame [of 0 "[INITIAL_GOALS]"]
  by (simp add: case_prod_beta Let_def INITIAL_GOALS_def adjustedGoals_store_def spreadCopy_def
      modify_def)

section \<open>Remaining macros and totals\<close>

lemma reduce_sum_list: "reduce_sum f xs = sum_list (map f xs)"
proof -
  have "foldl (\<lambda>acc e. acc + f e) a xs = a + sum_list (map f xs)" for a
    by (induction xs arbitrary: a) simp_all
  then show ?thesis by (simp add: reduce_sum_def)
qed

lemma clamped_rest_max: "clamped_rest (max 0 (g - t)) g t"
  by (auto simp: clamped_rest_def)

text \<open>
  C2. For each of calories, protein, carbs and fat the remaining amount is the maximum
  of zero and goal minus total; so it is never negative, it is zero when the total
  reaches the goal, and it is exactly goal minus total when the total is below the goal.
\<close>

theorem remaining_clamped:
  "clamped_rest (calories (remaining dailyLogs goals)) (calories goals) (reduce_sum calories dailyLogs)
   \<and> clamped_rest (protein (remaining dailyLogs goals)) (protein goals) (reduce_sum protein dailyLogs)
   \<and> clamped_rest (carbs (remaining dailyLogs goals)) (carbs goals) (reduce_sum carbs dailyLogs)
   \<and> clamped_rest (fat (remaining dailyLogs goals)) (fat goals) (reduce_sum fat dailyLogs)"
  by (simp add: remaining_def Let_def clamped_rest_max)

theorem remaining_clamped_witness:
  "remaining [sampleEntry ''a'' Lunch 2500 90 150 80] INITIAL_GOALS
     = \<lparr>calories = 0, protein = 90, carbs = 50, fat = 0\<rparr>"
  using remaining_clamped [of "[sampleEntry ''a'' Lunch 2500 90 150 80]" INITIAL_GOALS]
  by (simp add: clamped_rest_def reduce_sum_def sampleEntry_def INITIAL_GOALS_def)

text \<open>
  C8. End to end: base goals with calories 2200, protein 180, carbs 200, fat 70 on a
  training day with 11000 steps adjust to 2500, 180, 280, 70; and for every entry list
  with totals 1200, 90, 150, 40 the remaining macros against the adjusted goals are
  1300, 90, 130, 30.
\<close>

theorem end_to_end_scenario:
  assumes "calories base = 2200" "protein base = 180" "carbs base = 200" "fat base = 70"
    and "isTrainingDay base" "steps base = 11000"
  shows "calories (adjustedGoals base) = 2500 \<and> protein (adjustedGoals base) = 180
         \<and> carbs (adjustedGoals base) = 280 \<and> fat (adjustedGoals base) = 70
         \<and> (\<forall>dailyLogs.
              reduce_sum calories dailyLogs = 1200 \<and> reduce_sum protein dailyLogs = 90
              \<and> reduce_sum carbs dailyLogs = 150 \<and> reduce_sum fat dailyLogs = 40
              \<longrightarrow> remaining dailyLogs (adjustedGoals base)
                    = \<lparr>calories = 1300, protein = 90, carbs = 130, fat = 30\<rparr>)"
  using assms by (simp add: adjustedGoals_eq remaining_def Let_def)

theorem end_to_end_scenario_witness:
  "calories (adjustedGoals (INITIAL_GOALS\<lparr>isTrainingDay := True, steps := 11000\<rparr>)) = 2500
   \<and> carbs (adjustedGoals (INITIAL_GOALS\<lparr>isTrainingDay := True, steps := 11000\<rparr>)) = 280
   \<and> reduce_sum calories [sampleEntry ''b'' Breakfast 500 40 60 15,
                           sampleEntry ''l'' Lunch 700 50 90 25] = 1200
   \<and> remaining [sampleEntry ''b'' Breakfast 500 40 60 15, sampleEntry ''l'' Lunch 700 50 90 25]
        (adjustedGoals (INITIAL_GOALS\<lparr>isTrainingDay := True, steps := 11000\<rparr>))
      = \<lparr>calories = 1300, protein = 90, carbs = 130, fat = 30\<rparr>"
proof -
  let ?base = "INITIAL_GOALS\<lparr>isTrainingDay := True, steps := 11000\<rparr>"
  let ?logs = "[sampleEntry ''b'' Breakfast 500 40 60 15, sampleEntry ''l'' Lunch 700 50 90 25]"
  have b: "calories ?base = 2200" "protein ?base = 180" "carbs ?base = 200" "fat ?base = 70"
      "isTrainingDay ?base" "steps ?base = 11000"
    by (simp_all add: INITIAL_GOALS_def)
  have t: "reduce_sum calories ?logs = 1200" "reduce_sum protein ?logs = 90"
      "reduce_sum carbs ?logs = 150" "reduce_sum fat ?logs = 40"
    by (simp_all add: reduce_sum_def sampleEntry_def)
  from end_to_end_scenario [OF b] t show ?thesis by blast
qed

subsection \<open>Addition of doubles\<close>

lemma bitlen_upper: "n < 2 ^ bitlen n"
proof (induction n rule: bitlen.induct)
  case (1 n)
  show ?case
  proof (cases "n = 0")
    case True
    then show ?thesis by (simp add: bitlen.simps)
  next
    case False
    with 1 have "n div 2 < 2 ^ bitlen (n div 2)" by simp
    then have "n < 2 * 2 ^ bitlen (n div 2)" by linarith
    with False show ?thesis by (subst bitlen.simps) simp
  qed
qed

lemma bitlen_lower: "0 < n \<Longrightarrow> 2 ^ (bitlen n - 1) \<le> n"
proof (induction n rule: bitlen.induct)
  case (1 n)
  then have n: "n \<noteq> 0" by simp
  show ?case
  proof (cases "n div 2 = 0")
    case True
    with n have "bitlen n = 1" by (simp add: bitlen.simps [of n] bitlen.simps [of 0])
    with 1 show ?thesis by simp
  next
    case False
    with 1 n have ih: "2 ^ (bitlen (n div 2) - 1) \<le> n div 2" by simp
    from False have "bitlen (n div 2) \<noteq> 0" by (simp add: bitlen.simps [of "n div 2"])
    then have "2 ^ bitlen (n div 2) = (2::nat) * 2 ^ (bitlen (n div 2) - 1)"
      by (cases "bitlen (n div 2)") simp_all
    with ih have "2 ^ bitlen (n div 2) \<le> n" by linarith
    with n show ?thesis by (subst bitlen.simps) simp
  qed
qed

lemma strip_zeros_value:
  "strip_zeros m e = (m', e') \<Longrightarrow> real_of_int m' * 2 powi e' = real_of_int m * 2 powi e"
proof (induction m e rule: strip_zeros.induct)
  case (1 m e)
  show ?case
  proof (cases "m = 0")
    case True
    with 1(2) show ?thesis by (simp add: strip_zeros.simps [of 0])
  next
    case nz: False
    show ?thesis
    proof (cases "even m")
      case True
      with nz 1(2) have "strip_zeros (m div 2) (e + 1) = (m', e')"
        by (simp add: strip_zeros.simps [of m])
      with 1(1) nz True have "real_of_int m' * 2 powi e' = real_of_int (m div 2) * 2 powi (e + 1)"
        by simp
      also have "\<dots> = real_of_int (m div 2) * 2 * 2 powi e"
        by (simp add: power_int_add_1)
      also from True have "real_of_int (m div 2) * 2 = real_of_int m"
        by (metis dvd_div_mult_self of_int_mult of_int_numeral)
      finally show ?thesis .
    next
      case False
      with nz 1(2) show ?thesis by (simp add: strip_zeros.simps [of m])
    qed
  qed
qed

lemma round_int_error:
  fixes m :: int
  assumes k: "0 < k" and big: "2 ^ (k + 52) \<le> \<bar>m\<bar>"
  defines "q \<equiv> m div 2 ^ k" and "r \<equiv> m mod 2 ^ k"
  defines "q' \<equiv> (if 2 ^ (k - 1) < r \<or> (r = 2 ^ (k - 1) \<and> odd q) then q + 1 else q)"
  shows "2 ^ 53 * \<bar>q' * 2 ^ k - m\<bar> \<le> \<bar>m\<bar>"
proof -
  have m: "m = q * 2 ^ k + r" unfolding q_def r_def by (rule div_mult_mod_eq [symmetric])
  have r: "0 \<le> r" "r < 2 ^ k" by (simp_all add: r_def)
  from k have pk: "(2::int) ^ k = 2 * 2 ^ (k - 1)" by (cases k) simp_all
  have "\<bar>q' * 2 ^ k - m\<bar> \<le> 2 ^ (k - 1)"
  proof (cases "2 ^ (k - 1) < r \<or> (r = 2 ^ (k - 1) \<and> odd q)")
    case True
    then have "q' * 2 ^ k - m = 2 ^ k - r" by (simp add: q'_def m algebra_simps)
    with True r pk show ?thesis by auto
  next
    case False
    then have "q' * 2 ^ k - m = - r" by (simp add: q'_def m)
    with False r show ?thesis by auto
  qed
  then have "2 ^ 53 * \<bar>q' * 2 ^ k - m\<bar> \<le> 2 ^ 53 * (2::int) ^ (k - 1)" by simp
  also have "\<dots> = 2 ^ (k + 52)"
    using k by (cases k) (simp_all add: power_add)
  finally show ?thesis using big by linarith
qed

lemma powi_shift: "0 \<le> d \<Longrightarrow> (2::real) ^ nat d * 2 powi e = 2 powi (e + d)"
proof -
  assume "0 \<le> d"
  then have "(2::real) ^ nat d = 2 powi d" by (simp add: power_int_nonneg_exp)
  then show ?thesis by (simp add: power_int_add)
qed

lemma round53_error:
  assumes "round53 m e = (q, e')"
  shows "\<bar>real_of_int q * 2 powi e' - real_of_int m * 2 powi e\<bar>
           \<le> unit_roundoff * \<bar>real_of_int m * 2 powi e\<bar>"
proof (cases "bitlen (nat \<bar>m\<bar>) \<le> 53")
  case True
  with assms have "q = m" "e' = e" by (simp_all add: round53_def)
  then show ?thesis by (simp add: unit_roundoff_def)
next
  case False
  define k where "k = bitlen (nat \<bar>m\<bar>) - 53"
  from False have k: "0 < k" and n: "bitlen (nat \<bar>m\<bar>) - 1 = k + 52"
    by (simp_all add: k_def)
  from False have "0 < nat \<bar>m\<bar>" by (cases "nat \<bar>m\<bar> = 0") (simp_all add: bitlen.simps)
  from bitlen_lower [OF this] have "2 ^ (k + 52) \<le> nat \<bar>m\<bar>" by (simp only: n)
  then have "int (2 ^ (k + 52)) \<le> int (nat \<bar>m\<bar>)" by (simp only: of_nat_le_iff)
  then have big: "2 ^ (k + 52) \<le> \<bar>m\<bar>" by simp
  let ?q = "if 2 ^ (k - 1) < m mod 2 ^ k \<or> (m mod 2 ^ k = 2 ^ (k - 1) \<and> odd (m div 2 ^ k))
            then m div 2 ^ k + 1 else m div 2 ^ k"
  from False have "round53 m e = (?q, e + int k)"
    by (simp add: round53_def Let_def k_def)
  with assms have "(?q, e + int k) = (q, e')" by (simp only:)
  then have q: "?q = q" and e': "e' = e + int k" by blast+
  have "2 ^ 53 * \<bar>?q * 2 ^ k - m\<bar> \<le> \<bar>m\<bar>"
    by (rule round_int_error [OF k big])
  then have "2 ^ 53 * \<bar>q * 2 ^ k - m\<bar> \<le> \<bar>m\<bar>"
    by (simp only: q)
  then have "real_of_int (2 ^ 53 * \<bar>q * 2 ^ k - m\<bar>) \<le> real_of_int \<bar>m\<bar>"
    by (simp only: of_int_le_iff)
  then have int_err: "\<bar>real_of_int q * 2 ^ k - real_of_int m\<bar> \<le> unit_roundoff * \<bar>real_of_int m\<bar>"
    by (simp add: unit_roundoff_def field_simps)
  have pos: "0 < (2::real) powi e" by simp
  have pw: "(2::real) powi e' = 2 ^ k * 2 powi e"
    using powi_shift [of "int k" e] by (simp add: e')
  have "real_of_int q * 2 powi e' - real_of_int m * 2 powi e
          = (real_of_int q * 2 ^ k - real_of_int m) * 2 powi e"
    by (simp add: pw algebra_simps)
  then have "\<bar>real_of_int q * 2 powi e' - real_of_int m * 2 powi e\<bar>
               = \<bar>real_of_int q * 2 ^ k - real_of_int m\<bar> * \<bar>2 powi e\<bar>"
    by (simp only: abs_mult)
  also have "\<dots> = \<bar>real_of_int q * 2 ^ k - real_of_int m\<bar> * 2 powi e"
    by simp
  also have "\<dots> \<le> (unit_roundoff * \<bar>real_of_int m\<bar>) * 2 powi e"
    using int_err pos by (simp only: mult_le_cancel_right_pos)
  also have "\<dots> = unit_roundoff * \<bar>real_of_int m * 2 powi e\<bar>"
    using pos by (simp add: abs_mult)
  finally show ?thesis .
qed

lemma pack_value:
  "pack (m, e) = Fin m' e' \<Longrightarrow> real_of_int m' * 2 powi e' = real_of_int m * 2 powi e"
  by (auto simp: pack_def Let_def split: prod.splits if_splits dest: strip_zeros_value)

lemma fadd_finite: "isFinite (fadd a b) \<Longrightarrow> isFinite a \<and> isFinite b"
  by (cases a; cases b) (simp_all split: if_splits)

lemma fadd_exact_sum:
  "real_of_int (m1 * 2 ^ nat (e1 - min e1 e2) + m2 * 2 ^ nat (e2 - min e1 e2)) * 2 powi (min e1 e2)
     = real_of_int m1 * 2 powi e1 + real_of_int m2 * 2 powi e2"
proof -
  have "(2::real) ^ nat (e1 - min e1 e2) * 2 powi (min e1 e2) = 2 powi e1"
    using powi_shift [of "e1 - min e1 e2" "min e1 e2"] by simp
  moreover have "(2::real) ^ nat (e2 - min e1 e2) * 2 powi (min e1 e2) = 2 powi e2"
    using powi_shift [of "e2 - min e1 e2" "min e1 e2"] by simp
  ultimately show ?thesis
    by (simp add: distrib_right mult.assoc)
qed

text \<open>A finite sum of two doubles is the exact sum up to one unit roundoff.\<close>

lemma fadd_error:
  assumes "isFinite (fadd a b)"
  shows "\<bar>valof (fadd a b) - (valof a + valof b)\<bar> \<le> unit_roundoff * \<bar>valof a + valof b\<bar>"
proof -
  from fadd_finite [OF assms] obtain m1 e1 m2 e2 where a: "a = Fin m1 e1" and b: "b = Fin m2 e2"
    by (cases a; cases b) simp_all
  define e0 where "e0 = min e1 e2"
  define m0 where "m0 = m1 * 2 ^ nat (e1 - e0) + m2 * 2 ^ nat (e2 - e0)"
  obtain q e' where r: "round53 m0 e0 = (q, e')" by (cases "round53 m0 e0")
  have f: "fadd a b = pack (q, e')"
    by (simp add: a b Let_def m0_def e0_def r [unfolded m0_def e0_def])
  with assms obtain m e where p: "pack (q, e') = Fin m e" by (cases "pack (q, e')") simp_all
  have v: "valof (fadd a b) = real_of_int q * 2 powi e'"
    by (simp add: f p pack_value [OF p])
  have s: "valof a + valof b = real_of_int m0 * 2 powi e0"
    unfolding m0_def e0_def fadd_exact_sum by (simp add: a b)
  show ?thesis unfolding v s by (rule round53_error [OF r])
qed

subsection \<open>The aggregator\<close>

lemma unit_roundoff_nonneg: "0 \<le> unit_roundoff"
  by (simp add: unit_roundoff_def)

lemma growth_ge_one: "1 \<le> (1 + unit_roundoff) ^ n"
  using unit_roundoff_nonneg by simp

lemma abs_sum_nonneg: "0 \<le> abs_sum f xs"
  unfolding abs_sum_def by (induction xs) simp_all

lemma exact_sum_le_abs_sum: "\<bar>exact_sum f xs\<bar> \<le> abs_sum f xs"
  unfolding exact_sum_def abs_sum_def
proof (induction xs)
  case Nil
  show ?case by simp
next
  case (Cons x xs)
  then show ?case by simp
qed

lemma rounding_bound_nonneg: "0 \<le> A \<Longrightarrow> 0 \<le> rounding_bound n A"
  using growth_ge_one [of n] by (simp add: rounding_bound_def)

lemma rounding_bound_mono:
  assumes "n \<le> n'" "0 \<le> A"
  shows "rounding_bound n A \<le> rounding_bound n' A"
proof -
  have "(1 + unit_roundoff) ^ n \<le> (1 + unit_roundoff) ^ n'"
    using assms(1) unit_roundoff_nonneg by (intro power_increasing) simp_all
  then show ?thesis
    unfolding rounding_bound_def using assms(2) by (intro mult_right_mono) simp_all
qed

lemma foldl_fadd_nonfinite:
  "\<not> isFinite acc \<Longrightarrow> \<not> isFinite (foldl (\<lambda>acc e. fadd acc (f e)) acc xs)"
proof (induction xs arbitrary: acc)
  case Nil
  then show ?case by simp
next
  case (Cons x xs)
  from Cons.prems fadd_finite [of acc "f x"] have "\<not> isFinite (fadd acc (f x))" by blast
  from Cons.IH [OF this] show ?case by simp
qed

lemma step_arith:
  fixes g u A B :: real
  assumes "0 \<le> g" "0 \<le> u" "0 \<le> A"
  shows "g * ((1 + u) * B + A) + u * B \<le> ((g + 1) * (1 + u) - 1) * (B + A)"
proof -
  have "((g + 1) * (1 + u) - 1) * (B + A) - (g * ((1 + u) * B + A) + u * B) = g * u * A + u * A"
    by (simp add: algebra_simps)
  moreover have "0 \<le> g * u * A + u * A" using assms by simp
  ultimately show ?thesis by linarith
qed

lemma foldl_fadd_error:
  assumes "isFinite (foldl (\<lambda>acc e. fadd acc (f e)) acc xs)"
  shows "\<bar>valof (foldl (\<lambda>acc e. fadd acc (f e)) acc xs) - (valof acc + exact_sum f xs)\<bar>
           \<le> rounding_bound (length xs) (\<bar>valof acc\<bar> + abs_sum f xs)"
  using assms
proof (induction xs arbitrary: acc)
  case Nil
  then show ?case by (simp add: exact_sum_def abs_sum_def rounding_bound_def)
next
  case (Cons x xs)
  let ?F = "\<lambda>acc e. fadd acc (f e)"
  let ?a' = "fadd acc (f x)"
  let ?S = "valof (foldl ?F ?a' xs)"
  let ?g = "(1 + unit_roundoff) ^ length xs - 1"
  let ?B = "\<bar>valof acc\<bar> + \<bar>valof (f x)\<bar>"
  let ?A = "abs_sum f xs"
  from Cons.prems have fin: "isFinite (foldl ?F ?a' xs)" by simp
  then have a': "isFinite ?a'" using foldl_fadd_nonfinite [of ?a' f xs] by blast
  have g: "0 \<le> ?g" using growth_ge_one [of "length xs"] by simp
  have A: "0 \<le> ?A" by (rule abs_sum_nonneg)
  have h1: "\<bar>?S - (valof ?a' + exact_sum f xs)\<bar> \<le> ?g * (\<bar>valof ?a'\<bar> + ?A)"
    using Cons.IH [OF fin] by (simp add: rounding_bound_def)
  have h2: "\<bar>valof ?a' - (valof acc + valof (f x))\<bar>
              \<le> unit_roundoff * \<bar>valof acc + valof (f x)\<bar>"
    by (rule fadd_error [OF a'])
  have "unit_roundoff * \<bar>valof acc + valof (f x)\<bar> \<le> unit_roundoff * ?B"
    using unit_roundoff_nonneg by (intro mult_left_mono) simp_all
  with h2 have h5: "\<bar>valof ?a' - (valof acc + valof (f x))\<bar> \<le> unit_roundoff * ?B" by linarith
  then have "\<bar>valof ?a'\<bar> \<le> ?B + unit_roundoff * ?B" by linarith
  then have h3: "\<bar>valof ?a'\<bar> + ?A \<le> (1 + unit_roundoff) * ?B + ?A"
    by (simp add: algebra_simps)
  have h4: "?g * (\<bar>valof ?a'\<bar> + ?A) \<le> ?g * ((1 + unit_roundoff) * ?B + ?A)"
    using h3 g by (rule mult_left_mono)
  have tri: "\<bar>?S - (valof acc + valof (f x) + exact_sum f xs)\<bar>
               \<le> ?g * ((1 + unit_roundoff) * ?B + ?A) + unit_roundoff * ?B"
    using h1 h4 h5 by linarith
  have "?g * ((1 + unit_roundoff) * ?B + ?A) + unit_roundoff * ?B
          \<le> ((?g + 1) * (1 + unit_roundoff) - 1) * (?B + ?A)"
    using g unit_roundoff_nonneg A by (rule step_arith)
  also have "\<dots> = rounding_bound (length (x # xs)) (\<bar>valof acc\<bar> + abs_sum f (x # xs))"
    by (simp add: rounding_bound_def abs_sum_def algebra_simps)
  finally have "?g * ((1 + unit_roundoff) * ?B + ?A) + unit_roundoff * ?B
          \<le> rounding_bound (length (x # xs)) (\<bar>valof acc\<bar> + abs_sum f (x # xs))" .
  with tri show ?case by (simp add: exact_sum_def add.assoc)
qed

lemma reduce_fadd_error:
  "isFinite (reduce_fadd f xs) \<Longrightarrow>
     \<bar>valof (reduce_fadd f xs) - exact_sum f xs\<bar> \<le> rounding_bound (length xs) (abs_sum f xs)"
  using foldl_fadd_error [of f "Fin 0 0" xs] by (simp add: reduce_fadd_def)

lemma exact_sum_mset: "mset xs = mset ys \<Longrightarrow> exact_sum f xs = exact_sum f ys"
proof -
  assume "mset xs = mset ys"
  then have "mset (map (\<lambda>x. valof (f x)) xs) = mset (map (\<lambda>x. valof (f x)) ys)" by simp
  then have "sum_mset (mset (map (\<lambda>x. valof (f x)) xs))
               = sum_mset (mset (map (\<lambda>x. valof (f x)) ys))"
    by (rule arg_cong)
  then show ?thesis by (simp only: exact_sum_def sum_mset_sum_list)
qed

lemma abs_sum_mset: "mset xs = mset ys \<Longrightarrow> abs_sum f xs = abs_sum f ys"
proof -
  assume "mset xs = mset ys"
  then have "mset (map (\<lambda>x. \<bar>valof (f x)\<bar>) xs) = mset (map (\<lambda>x. \<bar>valof (f x)\<bar>) ys)" by simp
  then have "sum_mset (mset (map (\<lambda>x. \<bar>valof (f x)\<bar>) xs))
               = sum_mset (mset (map (\<lambda>x. \<bar>valof (f x)\<bar>) ys))"
    by (rule arg_cong)
  then show ?thesis by (simp only: abs_sum_def sum_mset_sum_list)
qed

lemma sum_list_filter_split:
  "sum_list (map g xs) = sum_list (map g (filter P xs)) + sum_list (map g (filter (\<lambda>x. \<not> P x) xs))"
  for g :: "'a \<Rightarrow> real"
  by (induction xs) simp_all

lemma reduce_fadd_permuted:
  assumes "mset es' = mset es" "isFinite (reduce_fadd f es')" "isFinite (reduce_fadd f es)"
  shows "\<bar>valof (reduce_fadd f es') - valof (reduce_fadd f es)\<bar>
           \<le> 2 * rounding_bound (length es) (abs_sum f es)"
proof -
  from assms(1) have "length es' = length es" by (rule mset_eq_length)
  with reduce_fadd_error [OF assms(2)] exact_sum_mset [OF assms(1)] abs_sum_mset [OF assms(1)]
  have "\<bar>valof (reduce_fadd f es') - exact_sum f es\<bar> \<le> rounding_bound (length es) (abs_sum f es)"
    by simp
  with reduce_fadd_error [OF assms(3)] show ?thesis by linarith
qed

lemma reduce_fadd_split:
  assumes fin: "isFinite (fadd (reduce_fadd f (groupEntries es slot)) (reduce_fadd f (otherEntries es slot)))"
    and tot: "isFinite (reduce_fadd f es)"
  shows "\<bar>valof (fadd (reduce_fadd f (groupEntries es slot)) (reduce_fadd f (otherEntries es slot)))
            - valof (reduce_fadd f es)\<bar>
           \<le> rounding_bound (Suc (length es)) (abs_sum f es) + rounding_bound (length es) (abs_sum f es)"
proof -
  let ?gs = "groupEntries es slot" and ?os = "otherEntries es slot"
  let ?G = "reduce_fadd f ?gs" and ?O = "reduce_fadd f ?os"
  let ?n = "length es" and ?A = "abs_sum f es"
  let ?g = "(1 + unit_roundoff) ^ ?n - 1"
  have g: "0 \<le> ?g" using growth_ge_one [of ?n] by simp
  have A: "0 \<le> ?A" by (rule abs_sum_nonneg)
  from fadd_finite [OF fin] have G: "isFinite ?G" and O: "isFinite ?O" by simp_all
  have E: "exact_sum f es = exact_sum f ?gs + exact_sum f ?os"
    unfolding exact_sum_def groupEntries_def otherEntries_def by (rule sum_list_filter_split)
  have As: "?A = abs_sum f ?gs + abs_sum f ?os"
    unfolding abs_sum_def groupEntries_def otherEntries_def by (rule sum_list_filter_split)
  have "length ?gs \<le> ?n" "length ?os \<le> ?n"
    by (simp_all add: groupEntries_def otherEntries_def)
  then have "rounding_bound (length ?gs) (abs_sum f ?gs) \<le> rounding_bound ?n (abs_sum f ?gs)"
      "rounding_bound (length ?os) (abs_sum f ?os) \<le> rounding_bound ?n (abs_sum f ?os)"
    by (simp_all add: rounding_bound_mono abs_sum_nonneg)
  with reduce_fadd_error [OF G] reduce_fadd_error [OF O]
  have eG: "\<bar>valof ?G - exact_sum f ?gs\<bar> \<le> ?g * abs_sum f ?gs"
    and eO: "\<bar>valof ?O - exact_sum f ?os\<bar> \<le> ?g * abs_sum f ?os"
    by (simp_all add: rounding_bound_def)
  have "?g * abs_sum f ?gs + ?g * abs_sum f ?os = ?g * ?A"
    by (simp only: As distrib_left)
  with eG eO have parts: "\<bar>valof ?G + valof ?O - exact_sum f es\<bar> \<le> ?g * ?A"
    unfolding E by linarith
  from exact_sum_le_abs_sum [of f es] parts have "\<bar>valof ?G + valof ?O\<bar> \<le> ?A + ?g * ?A"
    by linarith
  then have "unit_roundoff * \<bar>valof ?G + valof ?O\<bar> \<le> unit_roundoff * (?A + ?g * ?A)"
    using unit_roundoff_nonneg by (rule mult_left_mono)
  with fadd_error [OF fin]
  have "\<bar>valof (fadd ?G ?O) - (valof ?G + valof ?O)\<bar> \<le> unit_roundoff * (?A + ?g * ?A)"
    by linarith
  with parts have "\<bar>valof (fadd ?G ?O) - exact_sum f es\<bar>
                     \<le> ?g * ?A + unit_roundoff * (?A + ?g * ?A)"
    by linarith
  also have "\<dots> = rounding_bound (Suc ?n) ?A"
    by (simp add: rounding_bound_def algebra_simps)
  finally have "\<bar>valof (fadd ?G ?O) - exact_sum f es\<bar> \<le> rounding_bound (Suc ?n) ?A" .
  with reduce_fadd_error [OF tot] show ?thesis by linarith
qed

lemma aggregate_Nil: "aggregate [] = zero_profile"
  by (simp add: aggregate_def zero_profile_def reduce_fadd_def)

lemma aggregate_field:
  "(field, rd) \<in> set nutrient_fields \<Longrightarrow> field (aggregate es) = reduce_fadd rd es"
  by (auto simp: nutrient_fields_def aggregate_def)

lemma add_profiles_field:
  "(field, rd) \<in> set nutrient_fields \<Longrightarrow> field (add_profiles a b) = fadd (field a) (field b)"
  by (auto simp: nutrient_fields_def add_profiles_def)

lemma sample_doubles:
  "\<bar>valof dbl_0_1 - 1 / 10\<bar> < 1 / 2 ^ 57"
  "\<bar>valof dbl_0_2 - 2 / 10\<bar> < 1 / 2 ^ 56"
  "\<bar>valof dbl_0_3 - 3 / 10\<bar> < 1 / 2 ^ 55"
  by (simp_all add: dbl_0_1_def dbl_0_2_def dbl_0_3_def power_int_minus field_simps)

lemmas fadd_eval = round53_def pack_def bitlen.simps strip_zeros.simps Let_def

lemma sample_fat_totals:
  "fat (aggregate [fatEntry ''a'' Breakfast dbl_0_1, fatEntry ''b'' Lunch dbl_0_2,
                   fatEntry ''c'' Lunch dbl_0_3]) = Fin 1351079888211149 (- 51)"
  "fat (aggregate [fatEntry ''c'' Lunch dbl_0_3, fatEntry ''b'' Lunch dbl_0_2,
                   fatEntry ''a'' Breakfast dbl_0_1]) = Fin 5404319552844595 (- 53)"
  "fat (add_profiles
          (aggregate (groupEntries [fatEntry ''a'' Breakfast dbl_0_1, fatEntry ''b'' Lunch dbl_0_2,
                                    fatEntry ''c'' Lunch dbl_0_3] Lunch))
          (aggregate (otherEntries [fatEntry ''a'' Breakfast dbl_0_1, fatEntry ''b'' Lunch dbl_0_2,
                                    fatEntry ''c'' Lunch dbl_0_3] Lunch)))
     = Fin 5404319552844595 (- 53)"
  by (simp_all add: aggregate_def add_profiles_def groupEntries_def otherEntries_def
      reduce_fadd_def fatEntry_def dbl_0_1_def dbl_0_2_def dbl_0_3_def fadd_eval)

text \<open>
  C5, as stated, fails: the totals are sums of doubles, and such a sum depends on the
  order and on the grouping of its terms. With three entries of fat 0.1 (Breakfast), 0.2
  and 0.3 (both Lunch) the total of fat is 0.6000000000000001 in that order and 0.6 in
  the reverse order, and the total of the Lunch entries plus the total of the others is
  0.6 as well.
\<close>

theorem aggregate_order_counterexample:
  "mset [fatEntry ''c'' Lunch dbl_0_3, fatEntry ''b'' Lunch dbl_0_2,
         fatEntry ''a'' Breakfast dbl_0_1]
     = mset [fatEntry ''a'' Breakfast dbl_0_1, fatEntry ''b'' Lunch dbl_0_2,
             fatEntry ''c'' Lunch dbl_0_3]
   \<and> aggregate [fatEntry ''c'' Lunch dbl_0_3, fatEntry ''b'' Lunch dbl_0_2,
                fatEntry ''a'' Breakfast dbl_0_1]
       \<noteq> aggregate [fatEntry ''a'' Breakfast dbl_0_1, fatEntry ''b'' Lunch dbl_0_2,
                    fatEntry ''c'' Lunch dbl_0_3]
   \<and> aggregate [fatEntry ''a'' Breakfast dbl_0_1, fatEntry ''b'' Lunch dbl_0_2,
                fatEntry ''c'' Lunch dbl_0_3]
       \<noteq> add_profiles
            (aggregate (groupEntries [fatEntry ''a'' Breakfast dbl_0_1, fatEntry ''b'' Lunch dbl_0_2,
                                      fatEntry ''c'' Lunch dbl_0_3] Lunch))
            (aggregate (otherEntries [fatEntry ''a'' Breakfast dbl_0_1, fatEntry ''b'' Lunch dbl_0_2,
                                      fatEntry ''c'' Lunch dbl_0_3] Lunch))"
proof (intro conjI notI)
  show "mset [fatEntry ''c'' Lunch dbl_0_3, fatEntry ''b'' Lunch dbl_0_2,
              fatEntry ''a'' Breakfast dbl_0_1]
          = mset [fatEntry ''a'' Breakfast dbl_0_1, fatEntry ''b'' Lunch dbl_0_2,
                  fatEntry ''c'' Lunch dbl_0_3]"
    by (simp add: add.commute add.left_commute)
next
  assume "aggregate [fatEntry ''c'' Lunch dbl_0_3, fatEntry ''b'' Lunch dbl_0_2,
                     fatEntry ''a'' Breakfast dbl_0_1]
            = aggregate [fatEntry ''a'' Breakfast dbl_0_1, fatEntry ''b'' Lunch dbl_0_2,
                         fatEntry ''c'' Lunch dbl_0_3]"
  then have "fat (aggregate [fatEntry ''c'' Lunch dbl_0_3, fatEntry ''b'' Lunch dbl_0_2,
                             fatEntry ''a'' Breakfast dbl_0_1])
               = fat (aggregate [fatEntry ''a'' Breakfast dbl_0_1, fatEntry ''b'' Lunch dbl_0_2,
                                 fatEntry ''c'' Lunch dbl_0_3])"
    by (rule arg_cong)
  then show False by (simp only: sample_fat_totals) simp
next
  assume "aggregate [fatEntry ''a'' Breakfast dbl_0_1, fatEntry ''b'' Lunch dbl_0_2,
                     fatEntry ''c'' Lunch dbl_0_3]
       = add_profiles
            (aggregate (groupEntries [fatEntry ''a'' Breakfast dbl_0_1, fatEntry ''b'' Lunch dbl_0_2,
                                      fatEntry ''c'' Lunch dbl_0_3] Lunch))
            (aggregate (otherEntries [fatEntry ''a'' Breakfast dbl_0_1, fatEntry ''b'' Lunch dbl_0_2,
                                      fatEntry ''c'' Lunch dbl_0_3] Lunch))"
  then have "fat (aggregate [fatEntry ''a'' Breakfast dbl_0_1, fatEntry ''b'' Lunch dbl_0_2,
                             fatEntry ''c'' Lunch dbl_0_3])
       = fat (add_profiles
            (aggregate (groupEntries [fatEntry ''a'' Breakfast dbl_0_1, fatEntry ''b'' Lunch dbl_0_2,
                                      fatEntry ''c'' Lunch dbl_0_3] Lunch))
            (aggregate (otherEntries [fatEntry ''a'' Breakfast dbl_0_1, fatEntry ''b'' Lunch dbl_0_2,
                                      fatEntry ''c'' Lunch dbl_0_3] Lunch)))"
    by (rule arg_cong)
  then show False by (simp only: sample_fat_totals) simp
qed

text \<open>
  C5, amended. The totals of the empty list are all zero. The two other equations hold
  up to floating-point rounding: for every field, with \<open>n\<close> the number of entries,
  \<open>A\<close> the sum of the absolute values of the field and \<open>u = 2 ^ - 53\<close>, and as long
  as the totals concerned are finite, each total is within \<open>((1 + u) ^ n - 1) * A\<close> of
  the exact sum; the total of the list and the sum of the totals of the entries of one
  slot and of the other slots differ by at most
  \<open>((1 + u) ^ (n + 1) - 1) * A + ((1 + u) ^ n - 1) * A\<close>; and the totals of two
  reorderings of the list differ by at most \<open>2 * ((1 + u) ^ n - 1) * A\<close>.
\<close>

theorem aggregate_equations:
  "aggregate [] = zero_profile
   \<and> (\<forall>(field, rd) \<in> set nutrient_fields.
        (isFinite (field (aggregate es)) \<longrightarrow>
           \<bar>valof (field (aggregate es)) - exact_sum rd es\<bar>
             \<le> rounding_bound (length es) (abs_sum rd es))
        \<and> (isFinite (field (add_profiles (aggregate (groupEntries es slot))
                                        (aggregate (otherEntries es slot))))
             \<and> isFinite (field (aggregate es)) \<longrightarrow>
           \<bar>valof (field (add_profiles (aggregate (groupEntries es slot))
                                      (aggregate (otherEntries es slot))))
              - valof (field (aggregate es))\<bar>
             \<le> rounding_bound (Suc (length es)) (abs_sum rd es)
                 + rounding_bound (length es) (abs_sum rd es))
        \<and> (\<forall>es'. mset es' = mset es \<and> isFinite (field (aggregate es'))
                   \<and> isFinite (field (aggregate es)) \<longrightarrow>
           \<bar>valof (field (aggregate es')) - valof (field (aggregate es))\<bar>
             \<le> 2 * rounding_bound (length es) (abs_sum rd es)))"
proof (intro conjI ballI)
  show "aggregate [] = zero_profile" by (rule aggregate_Nil)
next
  fix p
  assume p: "p \<in> set nutrient_fields"
  obtain field rd where pr: "p = (field, rd)" by (cases p)
  with p have mem: "(field, rd) \<in> set nutrient_fields" by simp
  note af = aggregate_field [OF mem] and pf = add_profiles_field [OF mem]
  have "(isFinite (field (aggregate es)) \<longrightarrow>
           \<bar>valof (field (aggregate es)) - exact_sum rd es\<bar>
             \<le> rounding_bound (length es) (abs_sum rd es))"
    unfolding af using reduce_fadd_error by blast
  moreover have "(isFinite (field (add_profiles (aggregate (groupEntries es slot))
                                        (aggregate (otherEntries es slot))))
             \<and> isFinite (field (aggregate es)) \<longrightarrow>
           \<bar>valof (field (add_profiles (aggregate (groupEntries es slot))
                                      (aggregate (otherEntries es slot))))
              - valof (field (aggregate es))\<bar>
             \<le> rounding_bound (Suc (length es)) (abs_sum rd es)
                 + rounding_bound (length es) (abs_sum rd es))"
    unfolding pf af using reduce_fadd_split by blast
  moreover have "(\<forall>es'. mset es' = mset es \<and> isFinite (field (aggregate es'))
                   \<and> isFinite (field (aggregate es)) \<longrightarrow>
           \<bar>valof (field (aggregate es')) - valof (field (aggregate es))\<bar>
             \<le> 2 * rounding_bound (length es) (abs_sum rd es))"
    unfolding af using reduce_fadd_permuted by blast
  ultimately show "case p of (field, rd) \<Rightarrow>
        (isFinite (field (aggregate es)) \<longrightarrow>
           \<bar>valof (field (aggregate es)) - exact_sum rd es\<bar>
             \<le> rounding_bound (length es) (abs_sum rd es))
        \<and> (isFinite (field (add_profiles (aggregate (groupEntries es slot))
                                        (aggregate (otherEntries es slot))))
             \<and> isFinite (field (aggregate es)) \<longrightarrow>
           \<bar>valof (field (add_profiles (aggregate (groupEntries es slot))
                                      (aggregate (otherEntries es slot))))
              - valof (field (aggregate es))\<bar>
             \<le> rounding_bound (Suc (length es)) (abs_sum rd es)
                 + rounding_bound (length es) (abs_sum rd es))
        \<and> (\<forall>es'. mset es' = mset es \<and> isFinite (field (aggregate es'))
                   \<and> isFinite (field (aggregate es)) \<longrightarrow>
           \<bar>valof (field (aggregate es')) - valof (field (aggregate es))\<bar>
             \<le> 2 * rounding_bound (length es) (abs_sum rd es))"
    unfolding pr by simp
qed

theorem aggregate_equations_witness:
  "mset [fatEntry ''c'' Lunch dbl_0_3, fatEntry ''b'' Lunch dbl_0_2,
         fatEntry ''a'' Breakfast dbl_0_1]
     = mset [fatEntry ''a'' Breakfast dbl_0_1, fatEntry ''b'' Lunch dbl_0_2,
             fatEntry ''c'' Lunch dbl_0_3]
   \<and> isFinite (fat (aggregate [fatEntry ''a'' Breakfast dbl_0_1, fatEntry ''b'' Lunch dbl_0_2,
                               fatEntry ''c'' Lunch dbl_0_3]))
   \<and> isFinite (fat (aggregate [fatEntry ''c'' Lunch dbl_0_3, fatEntry ''b'' Lunch dbl_0_2,
                               fatEntry ''a'' Breakfast dbl_0_1]))
   \<and> \<bar>valof (fat (aggregate [fatEntry ''c'' Lunch dbl_0_3, fatEntry ''b'' Lunch dbl_0_2,
                             fatEntry ''a'' Breakfast dbl_0_1]))
        - valof (fat (aggregate [fatEntry ''a'' Breakfast dbl_0_1, fatEntry ''b'' Lunch dbl_0_2,
                                 fatEntry ''c'' Lunch dbl_0_3]))\<bar>
       \<le> 2 * rounding_bound 3 (abs_sum fat [fatEntry ''a'' Breakfast dbl_0_1,
              fatEntry ''b'' Lunch dbl_0_2, fatEntry ''c'' Lunch dbl_0_3])
   \<and> \<bar>valof (fat (add_profiles
           (aggregate (groupEntries [fatEntry ''a'' Breakfast dbl_0_1, fatEntry ''b'' Lunch dbl_0_2,
                                     fatEntry ''c'' Lunch dbl_0_3] Lunch))
           (aggregate (otherEntries [fatEntry ''a'' Breakfast dbl_0_1, fatEntry ''b'' Lunch dbl_0_2,
                                     fatEntry ''c'' Lunch dbl_0_3] Lunch))))
        - valof (fat (aggregate [fatEntry ''a'' Breakfast dbl_0_1, fatEntry ''b'' Lunch dbl_0_2,
                                 fatEntry ''c'' Lunch dbl_0_3]))\<bar>
       \<le> rounding_bound 4 (abs_sum fat [fatEntry ''a'' Breakfast dbl_0_1,
              fatEntry ''b'' Lunch dbl_0_2, fatEntry ''c'' Lunch dbl_0_3])
         + rounding_bound 3 (abs_sum fat [fatEntry ''a'' Breakfast dbl_0_1,
              fatEntry ''b'' Lunch dbl_0_2, fatEntry ''c'' Lunch dbl_0_3])"
proof -
  let ?a = "fatEntry ''a'' Breakfast dbl_0_1"
  let ?b = "fatEntry ''b'' Lunch dbl_0_2"
  let ?c = "fatEntry ''c'' Lunch dbl_0_3"
  let ?es = "[?a, ?b, ?c]"
  have mem: "(fat, fat) \<in> set nutrient_fields" by (simp add: nutrient_fields_def)
  have p: "mset [?c, ?b, ?a] = mset ?es" by (simp add: add.commute add.left_commute)
  have f: "isFinite (fat (aggregate ?es))" "isFinite (fat (aggregate [?c, ?b, ?a]))"
      "isFinite (fat (add_profiles (aggregate (groupEntries ?es Lunch))
                                   (aggregate (otherEntries ?es Lunch))))"
    by (simp_all only: sample_fat_totals isFinite.simps)
  have n: "length ?es = 3" "Suc 3 = 4" by simp_all
  note th = aggregate_equations [of ?es Lunch, THEN conjunct2, THEN bspec, OF mem,
      unfolded prod.case]
  note split = th [THEN conjunct2, THEN conjunct1, THEN mp, OF conjI, OF f(3) f(1)]
  note perm = th [THEN conjunct2, THEN conjunct2, THEN spec, of "[?c, ?b, ?a]", THEN mp,
      OF conjI, OF p conjI, OF f(2) f(1)]
  from p f(1,2) perm split show ?thesis unfolding n by (intro conjI)
qed

section \<open>The next meal\<close>

lemma has_iff:
  "hasBreakfast es = (\<not> no_entry_in Breakfast es)"
  "hasLunch es = (\<not> no_entry_in Lunch es)"
  "hasDinner es = (\<not> no_entry_in Dinner es)"
  unfolding hasBreakfast_def hasLunch_def hasDinner_def no_entry_in_def list_ex_iff image_iff
  by metis+

text \<open>
  C3, as stated, fails: with no entries at hour 3 the first rule applies (no Breakfast
  entry, and 3 is before 11), so the selector does not answer Dinner.
\<close>

theorem nextMeal_empty_hour3_counterexample: "nextMeal [] 3 \<noteq> Dinner"
  by (simp add: nextMeal_def hasBreakfast_def)

text \<open>
  C3, amended. With no entries at hour 3 the selector answers Breakfast, neither
  Dinner nor the Snack fallback; with no entries it answers Dinner exactly from hour
  15 on.
\<close>

theorem nextMeal_empty_log:
  "nextMeal [] 3 = Breakfast \<and> nextMeal [] 3 \<noteq> Dinner \<and> nextMeal [] 3 \<noteq> Snack
   \<and> (\<forall>h. (nextMeal [] h = Dinner) = (15 \<le> h))"
  by (simp add: nextMeal_def hasBreakfast_def hasLunch_def hasDinner_def)

text \<open>
  C4. The selector is the decision table of the specification, its four rules tried in
  order: Breakfast when no Breakfast entry exists and the hour is before 11, else Lunch
  when no Lunch entry exists and the hour is before 15, else Dinner when no Dinner
  entry exists, else Snack; this holds for every hour, those from 0 to 23 included. In
  particular a Breakfast entry, no Lunch entry and hour 9 give Lunch, and entries for
  Breakfast, Lunch and Dinner give Snack.
\<close>

theorem nextMeal_priority:
  "nextMeal es h = selectNextMeal_spec es h
   \<and> ((\<exists>e \<in> set es. mealType e = Breakfast) \<and> (\<forall>e \<in> set es. mealType e \<noteq> Lunch)
        \<longrightarrow> nextMeal es 9 = Lunch)
   \<and> ((\<exists>e \<in> set es. mealType e = Breakfast) \<and> (\<exists>e \<in> set es. mealType e = Lunch)
        \<and> (\<exists>e \<in> set es. mealType e = Dinner) \<longrightarrow> nextMeal es h = Snack)"
proof (intro conjI impI)
  show "nextMeal es h = selectNextMeal_spec es h"
    by (simp add: nextMeal_def selectNextMeal_spec_def has_iff)
next
  assume "(\<exists>e \<in> set es. mealType e = Breakfast) \<and> (\<forall>e \<in> set es. mealType e \<noteq> Lunch)"
  then have "hasBreakfast es" "\<not> hasLunch es"
    by (auto simp: hasBreakfast_def hasLunch_def list_ex_iff)
  then show "nextMeal es 9 = Lunch" by (simp add: nextMeal_def)
next
  assume "(\<exists>e \<in> set es. mealType e = Breakfast) \<and> (\<exists>e \<in> set es. mealType e = Lunch)
        \<and> (\<exists>e \<in> set es. mealType e = Dinner)"
  then have "hasBreakfast es" "hasLunch es" "hasDinner es"
    by (auto simp: hasBreakfast_def hasLunch_def hasDinner_def list_ex_iff)
  then show "nextMeal es h = Snack" by (simp add: nextMeal_def)
qed

theorem nextMeal_priority_witness:
  "nextMeal [sampleEntry ''b'' Breakfast 400 30 40 10] 9 = Lunch
   \<and> nextMeal [sampleEntry ''b'' Breakfast 400 30 40 10, sampleEntry ''l'' Lunch 700 50 80 20,
               sampleEntry ''d'' Dinner 800 60 70 30] 20 = Snack
   \<and> selectNextMeal_spec [sampleEntry ''b'' Breakfast 400 30 40 10] 16 = Dinner"
  using nextMeal_priority [of "[sampleEntry ''b'' Breakfast 400 30 40 10]" 16]
    nextMeal_priority [of "[sampleEntry ''b'' Breakfast 400 30 40 10,
      sampleEntry ''l'' Lunch 700 50 80 20, sampleEntry ''d'' Dinner 800 60 70 30]" 20]
  by (simp add: sampleEntry_def selectNextMeal_spec_def no_entry_in_def)

section \<open>Saving an entry\<close>

lemma upsert_ids:
  "map entry_id (map (\<lambda>x. if entry_id x = entry_id e then e else x) prev) = map entry_id prev"
  by (induction prev) simp_all

lemma upsert_replace:
  assumes "distinct (map entry_id prev)" "i < length prev" "entry_id (prev ! i) = entry_id e"
  shows "map (\<lambda>x. if entry_id x = entry_id e then e else x) prev = prev[i := e]"
proof (rule nth_equalityI)
  show "length (map (\<lambda>x. if entry_id x = entry_id e then e else x) prev) = length (prev[i := e])"
    by simp
next
  fix j
  assume "j < length (map (\<lambda>x. if entry_id x = entry_id e then e else x) prev)"
  then have j: "j < length prev" by simp
  show "map (\<lambda>x. if entry_id x = entry_id e then e else x) prev ! j = prev[i := e] ! j"
  proof (cases "j = i")
    case True
    with assms j show ?thesis by simp
  next
    case False
    from assms(1) j assms(2) False have "map entry_id prev ! j \<noteq> map entry_id prev ! i"
      by (simp only: nth_eq_iff_index_eq length_map) simp
    with j assms(2,3) have "entry_id (prev ! j) \<noteq> entry_id e" by simp
    with j False show ?thesis by simp
  qed
qed

text \<open>
  C10. Saving is an upsert that keeps the ids distinct. On a list with pairwise
  distinct ids: when the element at some position has the id of the saved entry, the
  result is the list with that one position replaced (same length, every other
  position untouched); when no element has that id, the entry is appended at the end;
  in both cases the ids of the result are pairwise distinct.
\<close>

theorem handleSaveEntry_upsert:
  assumes "distinct (map entry_id prev)"
  shows "(\<forall>i < length prev. entry_id (prev ! i) = entry_id e
            \<longrightarrow> handleSaveEntry prev e = prev[i := e])
         \<and> ((\<forall>x \<in> set prev. entry_id x \<noteq> entry_id e) \<longrightarrow> handleSaveEntry prev e = prev @ [e])
         \<and> distinct (map entry_id (handleSaveEntry prev e))"
proof (intro conjI allI impI)
  fix i
  assume i: "i < length prev" "entry_id (prev ! i) = entry_id e"
  then have "prev ! i \<in> set prev" by simp
  with i have "list_ex (\<lambda>x. entry_id x = entry_id e) prev"
    unfolding list_ex_iff by metis
  with upsert_replace [OF assms i] show "handleSaveEntry prev e = prev[i := e]"
    by (simp add: handleSaveEntry_def)
next
  assume "\<forall>x \<in> set prev. entry_id x \<noteq> entry_id e"
  then have "\<not> list_ex (\<lambda>x. entry_id x = entry_id e) prev"
    unfolding list_ex_iff by metis
  then show "handleSaveEntry prev e = prev @ [e]"
    by (simp add: handleSaveEntry_def)
next
  show "distinct (map entry_id (handleSaveEntry prev e))"
  proof (cases "list_ex (\<lambda>x. entry_id x = entry_id e) prev")
    case True
    with assms show ?thesis by (simp add: handleSaveEntry_def upsert_ids del: map_map)
  next
    case False
    then have "entry_id e \<notin> entry_id ` set prev"
      unfolding list_ex_iff image_iff by metis
    with False assms show ?thesis by (simp add: handleSaveEntry_def)
  qed
qed

theorem handleSaveEntry_upsert_witness:
  "distinct (map entry_id [sampleEntry ''a'' Breakfast 400 30 40 10, sampleEntry ''b'' Lunch 700 50 80 20])
   \<and> handleSaveEntry [sampleEntry ''a'' Breakfast 400 30 40 10, sampleEntry ''b'' Lunch 700 50 80 20]
        (sampleEntry ''b'' Dinner 650 45 60 25)
      = [sampleEntry ''a'' Breakfast 400 30 40 10, sampleEntry ''b'' Dinner 650 45 60 25]
   \<and> handleSaveEntry [sampleEntry ''a'' Breakfast 400 30 40 10, sampleEntry ''b'' Lunch 700 50 80 20]
        (sampleEntry ''c'' Dinner 650 45 60 25)
      = [sampleEntry ''a'' Breakfast 400 30 40 10, sampleEntry ''b'' Lunch 700 50 80 20,
         sampleEntry ''c'' Dinner 650 45 60 25]"
proof -
  let ?prev = "[sampleEntry ''a'' Breakfast 400 30 40 10, sampleEntry ''b'' Lunch 700 50 80 20]"
  have d: "distinct (map entry_id ?prev)" by (simp add: sampleEntry_def)
  have r: "1 < length ?prev"
      "entry_id (?prev ! 1) = entry_id (sampleEntry ''b'' Dinner 650 45 60 25)"
    by (simp_all add: sampleEntry_def)
  have a: "\<forall>x \<in> set ?prev. entry_id x \<noteq> entry_id (sampleEntry ''c'' Dinner 650 45 60 25)"
    by (simp add: sampleEntry_def)
  from handleSaveEntry_upsert [OF d, of "sampleEntry ''b'' Dinner 650 45 60 25"] r
  have "handleSaveEntry ?prev (sampleEntry ''b'' Dinner 650 45 60 25)
          = ?prev[1 := sampleEntry ''b'' Dinner 650 45 60 25]" by blast
  moreover from handleSaveEntry_upsert [OF d, of "sampleEntry ''c'' Dinner 650 45 60 25"] a
  have "handleSaveEntry ?prev (sampleEntry ''c'' Dinner 650 45 60 25)
          = ?prev @ [sampleEntry ''c'' Dinner 650 45 60 25]" by blast
  ultimately show ?thesis using d by simp
qed

section \<open>The weekly history\<close>

subsection \<open>The loop and the calendar arithmetic\<close>

lemma weekLoop_eq:
  "i \<le> 7 \<Longrightarrow> weekLoop tz today rnd es goals i history =
     history @ map (dayLog tz today rnd es goals) [i..<7]"
proof (induction tz today rnd es goals i history rule: weekLoop.induct)
  case (1 tz today rnd es goals i history)
  show ?case
  proof (cases "i < 7")
    case True
    then have "[i..<7] = i # [Suc i..<7]" by (simp add: upt_conv_Cons)
    with True "1.IH" show ?thesis by (subst weekLoop.simps) simp
  next
    case False
    with "1.prems" show ?thesis by (subst weekLoop.simps) simp
  qed
qed

lemma weeklyHistory_map:
  "weeklyHistory tz today rnd es goals = map (dayLog tz today rnd es goals) [0..<7]"
  by (simp add: weeklyHistory_def weekLoop_eq del: weekLoop.simps)

lemma weeklyHistory_length: "length (weeklyHistory tz today rnd es goals) = 7"
  by (simp add: weeklyHistory_map)

lemma weeklyHistory_nth:
  "i < 7 \<Longrightarrow> weeklyHistory tz today rnd es goals ! i = dayLog tz today rnd es goals i"
  by (simp add: weeklyHistory_map del: upt_Suc)

lemma msPerDay_pos: "0 < msPerDay"
  by (simp add: msPerDay_def)

lemma localDay_lower: "localDay tz t * msPerDay \<le> t + tz"
proof -
  have "(t + tz) div msPerDay * msPerDay + (t + tz) mod msPerDay = t + tz" by simp
  moreover have "0 \<le> (t + tz) mod msPerDay" using msPerDay_pos by simp
  ultimately show ?thesis unfolding localDay_def by linarith
qed

lemma localDay_upper: "t + tz < localDay tz t * msPerDay + msPerDay"
proof -
  have "(t + tz) div msPerDay * msPerDay + (t + tz) mod msPerDay = t + tz" by simp
  moreover have "(t + tz) mod msPerDay < msPerDay" using msPerDay_pos by simp
  ultimately show ?thesis unfolding localDay_def by linarith
qed

lemma distanceToMonday_range:
  "0 \<le> distanceToMonday tz today \<and> distanceToMonday tz today \<le> 6"
  unfolding distanceToMonday_def getDay_def Let_def by presburger

lemma div_shift: "0 < d \<Longrightarrow> (a + k * d) div d = a div d + k" for a d k :: int
  by simp

lemma localDay_addDays: "localDay tz (addDays t k) = localDay tz t + k"
proof -
  have "t + k * msPerDay + tz = (t + tz) + k * msPerDay" by simp
  then show ?thesis
    unfolding localDay_def addDays_def using div_shift [OF msPerDay_pos] by (simp only:)
qed

lemma day_time:
  "addDays (monday tz today) k
     = (localDay tz today - distanceToMonday tz today + k) * msPerDay - tz"
proof -
  have "monday tz today = (localDay tz today - distanceToMonday tz today) * msPerDay - tz"
    by (simp add: monday_def setHours0_def localDay_addDays)
  then show ?thesis
    by (simp add: addDays_def algebra_simps)
qed

lemma day_future:
  "(addDays (monday tz today) (int i) > today) = (distanceToMonday tz today < int i)"
proof -
  let ?L = "localDay tz today" and ?k = "distanceToMonday tz today"
  have eq: "addDays (monday tz today) (int i) + tz = (?L - ?k + int i) * msPerDay"
    by (simp add: day_time)
  show ?thesis
  proof (cases "?k < int i")
    case True
    then have "?L + 1 \<le> ?L - ?k + int i" by simp
    then have "(?L + 1) * msPerDay \<le> (?L - ?k + int i) * msPerDay"
      using msPerDay_pos by (simp only: mult_le_cancel_right) simp
    with localDay_upper [of today tz] eq True show ?thesis
      by (simp add: algebra_simps)
  next
    case False
    then have "?L - ?k + int i \<le> ?L" by simp
    then have "(?L - ?k + int i) * msPerDay \<le> ?L * msPerDay"
      using msPerDay_pos by (simp only: mult_le_cancel_right) simp
    with localDay_lower [of tz today] eq False show ?thesis
      by simp
  qed
qed

lemma day_past_not_today:
  assumes "int i < distanceToMonday tz today"
  shows "isoDate (addDays (monday tz today) (int i)) \<noteq> isoDate today"
proof -
  let ?L = "localDay tz today" and ?k = "distanceToMonday tz today"
  let ?d = "addDays (monday tz today) (int i)"
  have eq: "?d + tz = (?L - ?k + int i) * msPerDay"
    by (simp add: day_time)
  from assms have "?L - ?k + int i \<le> ?L - 1" by simp
  then have "(?L - ?k + int i) * msPerDay \<le> (?L - 1) * msPerDay"
    using msPerDay_pos by (simp only: mult_le_cancel_right) simp
  with localDay_lower [of tz today] eq have le: "?d + 1 * msPerDay \<le> today"
    by (simp add: algebra_simps)
  have "(?d + 1 * msPerDay) div msPerDay \<le> today div msPerDay"
    using le by (rule zdiv_mono1) (rule msPerDay_pos)
  then have "?d div msPerDay + 1 \<le> today div msPerDay"
    using div_shift [OF msPerDay_pos, of ?d 1] by simp
  then show ?thesis by (simp add: isoDate_def)
qed

lemma dayLog_future:
  "distanceToMonday tz today < int i \<Longrightarrow>
     entries (dayLog tz today rnd es goals i) = []"
  by (simp add: dayLog_def Let_def day_future)

lemma dayLog_today:
  "entries (dayLog tz today rnd es goals (todayIndex tz today))
     = (if isoDate (setHours0 tz today) = isoDate today then es
        else [mockEntry goals (rnd (todayIndex tz today)) (todayIndex tz today) (setHours0 tz today)])"
proof -
  have k: "int (todayIndex tz today) = distanceToMonday tz today"
    using distanceToMonday_range [of tz today] by (simp add: todayIndex_def)
  have d: "addDays (monday tz today) (int (todayIndex tz today)) = setHours0 tz today"
    unfolding k by (simp add: day_time setHours0_def)
  have "\<not> addDays (monday tz today) (int (todayIndex tz today)) > today"
    using day_future [of today tz "todayIndex tz today"] unfolding k by simp
  then have "\<not> setHours0 tz today > today"
    unfolding d .
  then show ?thesis
    by (simp add: dayLog_def Let_def d)
qed

lemma dayLog_past:
  "i < todayIndex tz today \<Longrightarrow>
     entries (dayLog tz today rnd es goals i)
       = [mockEntry goals (rnd i) i (addDays (monday tz today) (int i))]"
proof -
  assume "i < todayIndex tz today"
  then have lt: "int i < distanceToMonday tz today"
    by (simp add: todayIndex_def)
  then have "\<not> distanceToMonday tz today < int i" by simp
  with day_past_not_today [OF lt] show ?thesis
    by (simp add: dayLog_def Let_def day_future)
qed

lemma todayIndex_lt: "todayIndex tz today < 7"
  using distanceToMonday_range [of tz today] by (simp add: todayIndex_def nat_less_iff)

lemma weekday_shift:
  fixes L i q c :: int
  assumes "L + 4 = 7 * q + c"
  shows "(L - (if c = 0 then 6 else c - 1) + i + 4) mod 7 = (i + 1) mod 7"
proof -
  have "L - (if c = 0 then 6 else c - 1) + i + 4
          = (i + 1) + 7 * (if c = 0 then q - 1 else q)"
    using assms by (simp split: if_splits)
  then show ?thesis by (simp only: mod_mult_self2)
qed

lemma weekday_arith:
  "(L - (if (L + 4) mod 7 = 0 then 6 else (L + 4) mod 7 - 1) + i + 4) mod 7 = (i + 1) mod 7"
  for L i :: int
  by (rule weekday_shift [of L "(L + 4) div 7"]) simp

lemma localDay_midnight: "localDay tz (m * msPerDay - tz) = m"
  using msPerDay_pos by (simp add: localDay_def)

lemma day_weekday:
  "getDay tz (addDays (monday tz today) (int i)) = (int i + 1) mod 7"
  unfolding day_time getDay_def [of tz "_ - tz"] localDay_midnight
  unfolding distanceToMonday_def getDay_def Let_def
  by (rule weekday_arith)

subsection \<open>The shape of the week\<close>

text \<open>
  What holds in every time zone: seven day logs labelled Mon to Sun, the day of index
  \<open>i\<close> falling on local weekday \<open>i + 1\<close> (Sunday being 0), and no entries on the days
  after today. In the UTC zone today's log holds the live entries.
\<close>

lemma weeklyHistory_shape:
  "length (weeklyHistory tz today rnd liveEntries goals) = 7
   \<and> map dayName (weeklyHistory tz today rnd liveEntries goals) = dayNames
   \<and> (\<forall>i < 7. getDay tz (addDays (monday tz today) (int i)) = (int i + 1) mod 7)
   \<and> (\<forall>i < 7. todayIndex tz today < i \<longrightarrow>
          entries (weeklyHistory tz today rnd liveEntries goals ! i) = [])"
proof (intro conjI allI impI)
  show "length (weeklyHistory tz today rnd liveEntries goals) = 7"
    by (rule weeklyHistory_length)
  have "dayName (dayLog tz today rnd liveEntries goals i) = dayNames ! i" for i
    by (simp add: dayLog_def Let_def)
  then have "map dayName (weeklyHistory tz today rnd liveEntries goals)
               = map (\<lambda>i. dayNames ! i) [0..<7]"
    by (simp add: weeklyHistory_map)
  also have "(7::nat) = length dayNames"
    by (simp add: dayNames_def)
  finally show "map dayName (weeklyHistory tz today rnd liveEntries goals) = dayNames"
    by (simp only: map_nth)
next
  fix i :: nat
  show "getDay tz (addDays (monday tz today) (int i)) = (int i + 1) mod 7"
    by (rule day_weekday)
next
  fix i :: nat
  assume "i < 7" "todayIndex tz today < i"
  then show "entries (weeklyHistory tz today rnd liveEntries goals ! i) = []"
    using distanceToMonday_range [of tz today]
    by (simp add: weeklyHistory_nth dayLog_future todayIndex_def)
qed

lemma weeklyHistory_today_utc:
  "entries (weeklyHistory 0 today rnd liveEntries goals ! todayIndex 0 today) = liveEntries"
proof -
  have "isoDate (setHours0 0 today) = isoDate today"
    using msPerDay_pos by (simp add: isoDate_def setHours0_def localDay_def)
  then show ?thesis
    by (simp add: weeklyHistory_nth todayIndex_lt dayLog_today)
qed

text \<open>
  C6 does not hold of the code for today's log. The branch for today compares the UTC
  date of the day's local midnight with the UTC date of now, and east of Greenwich the
  local midnight falls on the previous UTC date. At 10:00 on Wednesday 3 January 2024
  in a zone one hour east of UTC (09:00 UTC, time value 1704272400000) today has index
  2, its date text is that of 2 January (day 19724, today being day 19725), and its log
  holds one mock entry whatever the live entries are; index 3 is already a future day.
\<close>

theorem weeklyHistory_today_not_live:
  "getDay 3600000 1704272400000 = 3
   \<and> todayIndex 3600000 1704272400000 = 2
   \<and> isoDate 1704272400000 = 19725
   \<and> date (weeklyHistory 3600000 1704272400000 rnd liveEntries goals ! 2) = 19724
   \<and> entries (weeklyHistory 3600000 1704272400000 rnd liveEntries goals ! 2)
       = [mockEntry goals (rnd 2) 2 1704236400000]
   \<and> entries (weeklyHistory 3600000 1704272400000 rnd liveEntries goals ! 3) = []"
  by (simp add: weeklyHistory_nth dayLog_def Let_def addDays_def monday_def setHours0_def
      localDay_def isoDate_def distanceToMonday_def getDay_def msPerDay_def todayIndex_def)

subsection \<open>Past days\<close>

lemma round_variance_bound:
  fixes g v :: real
  assumes "- 0.2 \<le> v" "v \<le> 0.2"
  shows "\<bar>real_of_int (round (g * (1 + v))) - g\<bar> \<le> 0.2 * \<bar>g\<bar> + 1 / 2"
proof -
  have "\<bar>real_of_int (round (g * (1 + v))) - g * (1 + v)\<bar> \<le> 1 / 2"
    by (rule of_int_round_abs_le)
  moreover have "\<bar>g * (1 + v) - g\<bar> = \<bar>g\<bar> * \<bar>v\<bar>"
    by (simp add: algebra_simps abs_mult)
  moreover have "\<bar>g\<bar> * \<bar>v\<bar> \<le> \<bar>g\<bar> * 0.2"
    using assms by (intro mult_left_mono) auto
  ultimately show ?thesis by linarith
qed

text \<open>
  C7, as stated, fails in its bound: the rounded calories can leave the band of 20
  percent around the goal. With a goal of 2203 and a random draw of 0.0001 the mock
  entry of Monday (today being Wednesday) has 1762 calories, below 80 percent of the
  goal, which is 1762.4.
\<close>

theorem weeklyHistory_past_calories_counterexample:
  "(0::nat) < todayIndex 0 1704283200000
   \<and> entries (weeklyHistory 0 1704283200000 (\<lambda>i. 1 / 10000) []
               (INITIAL_GOALS\<lparr>calories := 2203\<rparr>) ! 0)
       = [mockEntry (INITIAL_GOALS\<lparr>calories := 2203\<rparr>) (1 / 10000) 0 1704067200000]
   \<and> calories (mockEntry (INITIAL_GOALS\<lparr>calories := 2203\<rparr>) (1 / 10000) 0 1704067200000) = 1762
   \<and> \<not> \<bar>1762 - calories (INITIAL_GOALS\<lparr>calories := 2203\<rparr>)\<bar>
          \<le> 0.2 * \<bar>calories (INITIAL_GOALS\<lparr>calories := 2203\<rparr>)\<bar>"
proof -
  have i: "(0::nat) < todayIndex 0 1704283200000"
    by (simp add: todayIndex_def distanceToMonday_def getDay_def localDay_def msPerDay_def)
  have d: "addDays (monday 0 1704283200000) (int 0) = 1704067200000"
    by (simp add: addDays_def monday_def setHours0_def localDay_def distanceToMonday_def
        getDay_def msPerDay_def)
  have e: "entries (weeklyHistory 0 1704283200000 (\<lambda>i. 1 / 10000) []
               (INITIAL_GOALS\<lparr>calories := 2203\<rparr>) ! 0)
       = [mockEntry (INITIAL_GOALS\<lparr>calories := 2203\<rparr>) (1 / 10000) 0 1704067200000]"
    using dayLog_past [OF i] d by (simp add: weeklyHistory_nth)
  have c: "calories (mockEntry (INITIAL_GOALS\<lparr>calories := 2203\<rparr>) (1 / 10000) 0 1704067200000) = 1762"
    by (simp add: mockEntry_def Let_def INITIAL_GOALS_def round_def)
  from i e c show ?thesis by (simp add: INITIAL_GOALS_def)
qed

text \<open>
  C7, amended. For every day before today in the built week, and a random draw of at
  least 0 and below 1, the log holds exactly one mock entry: its calories are
  \<open>round (goals.calories * (1 + variance))\<close> for a variance between -0.2 and 0.2, hence
  within 20 percent of the goal's calories plus one half for the rounding; protein is
  the rounded 30 percent of those calories over 4, carbs the rounded 40 percent over 4,
  fat the rounded 30 percent over 9; fiber is 20, salt 2000, potassium 3000, the meal
  slot is Snack, and there are no tags and no inflammation flags.
\<close>

theorem weeklyHistory_past_mock:
  assumes "i < todayIndex tz today" "0 \<le> rnd i" "rnd i < 1"
  shows "\<exists>variance e. - 0.2 \<le> variance \<and> variance \<le> 0.2
      \<and> entries (weeklyHistory tz today rnd liveEntries goals ! i) = [e]
      \<and> calories e = real_of_int (round (calories goals * (1 + variance)))
      \<and> \<bar>calories e - calories goals\<bar> \<le> 0.2 * \<bar>calories goals\<bar> + 1 / 2
      \<and> protein e = real_of_int (round (calories e * 0.3 / 4))
      \<and> carbs e = real_of_int (round (calories e * 0.4 / 4))
      \<and> fat e = real_of_int (round (calories e * 0.3 / 9))
      \<and> fiber e = 20 \<and> salt e = 2000 \<and> potassium e = 3000
      \<and> mealType e = Snack \<and> tags e = [] \<and> inflammationFlags e = []"
proof -
  let ?v = "rnd i * 0.4 - 0.2"
  let ?e = "mockEntry goals (rnd i) i (addDays (monday tz today) (int i))"
  from assms(1) todayIndex_lt [of tz today] have "i < 7" by simp
  with assms(1) have ent: "entries (weeklyHistory tz today rnd liveEntries goals ! i) = [?e]"
    by (simp add: weeklyHistory_nth dayLog_past)
  have v: "- 0.2 \<le> ?v" "?v \<le> 0.2" using assms(2,3) by simp_all
  have cal: "calories ?e = real_of_int (round (calories goals * (1 + ?v)))"
    by (simp add: mockEntry_def Let_def)
  have bound: "\<bar>calories ?e - calories goals\<bar> \<le> 0.2 * \<bar>calories goals\<bar> + 1 / 2"
    unfolding cal using v by (rule round_variance_bound)
  have rest: "protein ?e = real_of_int (round (calories ?e * 0.3 / 4))"
      "carbs ?e = real_of_int (round (calories ?e * 0.4 / 4))"
      "fat ?e = real_of_int (round (calories ?e * 0.3 / 9))"
      "fiber ?e = 20" "salt ?e = 2000" "potassium ?e = 3000"
      "mealType ?e = Snack" "tags ?e = []" "inflammationFlags ?e = []"
    by (simp_all add: mockEntry_def Let_def)
  from v ent cal bound rest show ?thesis by blast
qed

theorem weeklyHistory_past_mock_witness:
  "(0::nat) < todayIndex 0 1704283200000 \<and> (0::real) \<le> 1 / 2 \<and> (1 / 2 :: real) < 1
   \<and> (\<exists>e. entries (weeklyHistory 0 1704283200000 (\<lambda>i. 1 / 2) [] INITIAL_GOALS ! 0) = [e]
          \<and> fiber e = 20 \<and> salt e = 2000 \<and> potassium e = 3000 \<and> mealType e = Snack)"
proof -
  have i: "(0::nat) < todayIndex 0 1704283200000"
    by (simp add: todayIndex_def distanceToMonday_def getDay_def localDay_def msPerDay_def)
  have r: "(0::real) \<le> (\<lambda>i::nat. 1 / 2) 0" "(\<lambda>i::nat. 1 / 2 :: real) 0 < 1" by simp_all
  from weeklyHistory_past_mock [of 0 0 1704283200000 "\<lambda>i. 1 / 2" "[]" INITIAL_GOALS, OF i r] i
  show ?thesis by auto
qed

end
